theory Spec2Isabelle
  imports Main "HOL-Library.AList"
begin

unbundle bit_operations_syntax

section \<open>Data model\<close>

text \<open>
  A Python \<^verbatim>\<open>str\<close> is the sequence of its code points, which are natural numbers. The text
  literals of the notebook are written as HOL strings, and \<open>py\<close> gives the \<^verbatim>\<open>str\<close> that such
  a literal denotes.
\<close>

type_synonym pystr = "nat list"

definition py :: "string \<Rightarrow> pystr" where
  "py s = map of_char s"

text \<open>
  The code points of a \<^verbatim>\<open>str\<close> lie below 0x110000. A \<^verbatim>\<open>str\<close> that pydantic has parsed from
  the JSON text of a reply of the model service holds Unicode scalar values only: no
  code point of it lies in the surrogate range from 0xD800 to 0xDFFF.
\<close>

definition scalar_value :: "nat \<Rightarrow> bool" where
  "scalar_value c = (c < 0x110000 \<and> (c < 0xD800 \<or> 0xDFFF < c))"

definition well_formed :: "pystr \<Rightarrow> bool" where
  "well_formed s = list_all scalar_value s"

text \<open>
  The notebook \<^verbatim>\<open>cohort_2/week5/1. Generate Dataset.ipynb\<close> declares two pydantic models.
  \<^verbatim>\<open>ItemAttribute\<close> has the string fields \<^verbatim>\<open>name\<close> and \<^verbatim>\<open>value\<close>; they are called
  \<open>attr_name\<close> and \<open>attr_value\<close> here.
\<close>

record ItemAttribute =
  attr_name :: pystr
  attr_value :: pystr

record ItemMetadata =
  title :: pystr
  brand :: pystr
  description :: pystr
  category :: pystr
  subcategory :: pystr
  product_type :: pystr
  attributes :: "ItemAttribute list"
  material :: pystr
  pattern :: pystr

text \<open>
  The taxonomy is the dictionary \<^verbatim>\<open>taxonomy_data\<close>. The validators read two of its entries:
  \<^verbatim>\<open>taxonomy_data["common_attributes"]\<close>, a dictionary with the fixed keys printed by the
  notebook (\<^verbatim>\<open>Size\<close>, \<^verbatim>\<open>Color\<close>, \<^verbatim>\<open>Material\<close>, \<^verbatim>\<open>Pattern\<close>, \<^verbatim>\<open>Occasion\<close>), each a list of
  strings, and \<^verbatim>\<open>taxonomy_data["taxonomy_map"]\<close>, a dictionary from category to a dictionary
  from subcategory to \<^verbatim>\<open>{"product_type": [...], "attributes": {name: [...]}}\<close>.
  Dictionaries with fixed keys are records; dictionaries keyed by taxonomy names are
  association lists in insertion order, read with \<open>map_of\<close>, their keys listed with
  \<open>map fst\<close>.
\<close>

record common_attributes =
  Size :: "pystr list"
  Color :: "pystr list"
  Material :: "pystr list"
  Pattern :: "pystr list"
  Occasion :: "pystr list"

record subcategory_data =
  sub_product_type :: "pystr list"
  sub_attributes :: "(pystr \<times> pystr list) list"

type_synonym taxonomy_map = "(pystr \<times> (pystr \<times> subcategory_data) list) list"

record taxonomy_data =
  taxonomy_map :: taxonomy_map
  common_attributes :: common_attributes

text \<open>
  \<^verbatim>\<open>info.context\<close> is either \<^verbatim>\<open>None\<close> or a dictionary \<^verbatim>\<open>{"taxonomy_data": ...}\<close> whose entry is
  the taxonomy; an entry that Python treats as false (\<^verbatim>\<open>None\<close>, an empty dictionary) is
  the inner \<open>None\<close>.
\<close>

type_synonym info_context = "taxonomy_data option option"

section \<open>Errors\<close>

text \<open>
  Every message of the validators is an f-string. A message is kept as the sequence of
  its parts: the literal text, an interpolated \<^verbatim>\<open>str\<close> and an interpolated list of
  \<^verbatim>\<open>str\<close>, in the order in which the f-string has them.
\<close>

datatype fragment = Lit string | Str pystr | StrList "pystr list"

text \<open>
  The exceptions that reach the batch loop. A validator raises \<^verbatim>\<open>ValueError\<close>; pydantic
  reports the \<^verbatim>\<open>ValueError\<close>s of the records of one reply as one \<^verbatim>\<open>ValidationError\<close>, and
  the instructor client raises it inside \<^verbatim>\<open>InstructorRetryException\<close>; \<^verbatim>\<open>wait_for\<close> raises
  \<^verbatim>\<open>TimeoutError\<close>; the client raises \<^verbatim>\<open>APIError\<close> when the call itself fails; tenacity raises
  \<^verbatim>\<open>RetryError\<close> around the exception of the last attempt.
\<close>

datatype exn =
  ValueError "fragment list"
  | ValidationError "exn list"
  | InstructorRetryException exn
  | TimeoutError
  | APIError
  | RetryError exn
  | KeyError string
  | TypeError

section \<open>The validators of ItemMetadata\<close>

definition validate_material_and_pattern :: "ItemMetadata \<Rightarrow> info_context \<Rightarrow> exn + ItemMetadata" where
  "validate_material_and_pattern self context =
     (case context of
        None \<Rightarrow> Inl (ValueError [Lit ''Taxonomy data is required for validation''])
      | Some None \<Rightarrow> Inl (ValueError [Lit ''Taxonomy data is required for validation''])
      | Some (Some td) \<Rightarrow>
          if pattern self \<notin> set (Pattern (common_attributes td)) then
            Inl (ValueError [Lit ''Pattern '', Str (pattern self),
                   Lit '' is not a valid pattern. Valid patterns are '',
                   StrList (Pattern (common_attributes td))])
          else if material self \<notin> set (Material (common_attributes td)) then
            Inl (ValueError [Lit ''Material '', Str (material self),
                   Lit '' is not a valid material. Valid materials are '',
                   StrList (Material (common_attributes td))])
          else Inr self)"

text \<open>
  The loop \<^verbatim>\<open>for attr in self.attributes\<close> of \<^verbatim>\<open>validate_category_and_attributes\<close>: the name
  is looked up among the keys of \<^verbatim>\<open>subcategory_data["attributes"]\<close>, then the value in the
  list stored under that name; the first failure raises.
\<close>

fun validate_attributes :: "pystr \<Rightarrow> subcategory_data \<Rightarrow> ItemAttribute list \<Rightarrow> exn + unit" where
  "validate_attributes sub sd [] = Inr ()"
| "validate_attributes sub sd (attr # rest) =
     (case map_of (sub_attributes sd) (attr_name attr) of
        None \<Rightarrow>
          Inl (ValueError [Lit ''Attribute '', Str (attr_name attr),
                 Lit '' is not valid for subcategory '', Str sub,
                 Lit ''. Valid attributes are '', StrList (map fst (sub_attributes sd))])
      | Some vals \<Rightarrow>
          if attr_value attr \<notin> set vals then
            Inl (ValueError [Lit ''Value '', Str (attr_value attr),
                   Lit '' is not valid for attribute '', Str (attr_name attr),
                   Lit ''. Valid values are '', StrList vals])
          else validate_attributes sub sd rest)"

definition validate_category_and_attributes :: "ItemMetadata \<Rightarrow> info_context \<Rightarrow> exn + ItemMetadata" where
  "validate_category_and_attributes self context =
     (case context of
        None \<Rightarrow> Inl (ValueError [Lit ''Taxonomy data is required for validation''])
      | Some None \<Rightarrow> Inl (ValueError [Lit ''Taxonomy data is required for validation''])
      | Some (Some td) \<Rightarrow>
          (case map_of (taxonomy_map td) (category self) of
             None \<Rightarrow>
               Inl (ValueError [Lit ''Category '', Str (category self),
                      Lit '' is not valid. Valid categories are '',
                      StrList (map fst (taxonomy_map td))])
           | Some subs \<Rightarrow>
               (case map_of subs (subcategory self) of
                  None \<Rightarrow>
                    Inl (ValueError [Lit ''Subcategory '', Str (subcategory self),
                           Lit '' does not exist under category '', Str (category self)])
                | Some sd \<Rightarrow>
                    if product_type self \<notin> set (sub_product_type sd) then
                      Inl (ValueError [Lit ''Product type '', Str (product_type self),
                             Lit '' is not valid for subcategory '', Str (subcategory self),
                             Lit ''. Valid types are '', StrList (sub_product_type sd)])
                    else
                      (case validate_attributes (subcategory self) sd (attributes self) of
                         Inl e \<Rightarrow> Inl e
                       | Inr _ \<Rightarrow> Inr self))))"

text \<open>
  Both validators are declared with \<^verbatim>\<open>@model_validator(mode="after")\<close>. Pydantic runs the
  after-validators of a model in the order of their definition in the class body, hands
  each one the instance the previous one returned, and stops at the first that raises.
  \<^verbatim>\<open>validate_material_and_pattern\<close> is defined first.
\<close>

definition model_validate :: "ItemMetadata \<Rightarrow> info_context \<Rightarrow> exn + ItemMetadata" where
  "model_validate obj context =
     (case validate_material_and_pattern obj context of
        Inl e \<Rightarrow> Inl e
      | Inr self \<Rightarrow> validate_category_and_attributes self context)"

section \<open>One extraction attempt\<close>

text \<open>
  What the call \<^verbatim>\<open>client.chat.completions.create(...)\<close> under \<^verbatim>\<open>wait_for(..., 30)\<close> can do:
  end with a reply of the model service, run past the 30 seconds, or fail. The client
  is an instructor client: inside the call it validates the reply and, when the reply
  is rejected, asks the service again with the errors, as often as it is configured to.
  \<open>Completed\<close> holds the candidate records of the reply that ends the call: the first one
  that is accepted, or the rejected one after which the client gives up.
\<close>

datatype response = Completed "ItemMetadata list" | TimedOut | Failed

text \<open>
  The reply is parsed as \<^verbatim>\<open>List[ItemMetadata]\<close> with \<^verbatim>\<open>context={"taxonomy_data": taxonomy_data}\<close>:
  every record goes through \<open>model_validate\<close>, and the errors of all rejected records are
  reported together.
\<close>

definition validate_items :: "ItemMetadata list \<Rightarrow> info_context \<Rightarrow> exn + ItemMetadata list" where
  "validate_items cands context =
     (let rs = map (\<lambda>c. model_validate c context) cands;
          errs = [e. Inl e \<leftarrow> rs]
      in if errs = [] then Inr [v. Inr v \<leftarrow> rs] else Inl (ValidationError errs))"

text \<open>
  An element of the list that \<^verbatim>\<open>generate_dataset_label\<close> returns:
  \<^verbatim>\<open>{"image": dataset_item["image"], "metadata": item}\<close>. A dataset row is read only at its
  \<^verbatim>\<open>image\<close> entry, so it is the image itself.
\<close>

record 'img labelled_item =
  image_obj :: 'img
  metadata :: ItemMetadata

definition attempt :: "'img \<Rightarrow> response \<Rightarrow> taxonomy_data \<Rightarrow> exn + 'img labelled_item list" where
  "attempt dataset_item reply td =
     (case reply of
        TimedOut \<Rightarrow> Inl TimeoutError
      | Failed \<Rightarrow> Inl APIError
      | Completed cands \<Rightarrow>
          (case validate_items cands (Some (Some td)) of
             Inl e \<Rightarrow> Inl (InstructorRetryException e)
           | Inr items \<Rightarrow>
               Inr (map (\<lambda>item. \<lparr>image_obj = dataset_item, metadata = item\<rparr>) items)))"

section \<open>Retry and batch\<close>

text \<open>
  \<^verbatim>\<open>@retry(stop=stop_after_attempt(3), wait=wait_fixed(1))\<close>: attempts are numbered from 1;
  an attempt that raises is followed by another one unless its number has reached the
  bound, in which case \<^verbatim>\<open>RetryError\<close> is raised around the last exception.
\<close>

function retry :: "nat \<Rightarrow> nat \<Rightarrow> (nat \<Rightarrow> exn + 'a) \<Rightarrow> exn + 'a" where
  "retry stop_after_attempt attempt_number f =
     (case f attempt_number of
        Inr v \<Rightarrow> Inr v
      | Inl e \<Rightarrow>
          if attempt_number \<ge> stop_after_attempt then Inl (RetryError e)
          else retry stop_after_attempt (attempt_number + 1) f)"
  by pat_completeness auto
termination
  by (relation "measure (\<lambda>(n, k, f). n - k)") auto

declare retry.simps [simp del]

text \<open>
  The \<^verbatim>\<open>client\<close> of a task is what the model service does at each attempt of that task.
\<close>

definition generate_dataset_label ::
    "'img \<Rightarrow> (nat \<Rightarrow> response) \<Rightarrow> taxonomy_data \<Rightarrow> exn + 'img labelled_item list" where
  "generate_dataset_label dataset_item client td =
     retry 3 1 (\<lambda>k. attempt dataset_item (client k) td)"

text \<open>
  \<^verbatim>\<open>asyncio\<close> in the notebook is \<^verbatim>\<open>tqdm.asyncio.tqdm_asyncio\<close>. Its \<^verbatim>\<open>gather\<close> pairs every
  awaitable with its index, awaits the pairs in the order in which they complete
  (\<^verbatim>\<open>as_completed\<close>), and returns the results sorted by index; awaiting a task that raised
  raises its exception out of \<^verbatim>\<open>gather\<close>. The completion order is a parameter: a list
  of the task indices.
\<close>

fun await_completed :: "(exn + 'a) list \<Rightarrow> nat list \<Rightarrow> exn + (nat \<times> 'a) list" where
  "await_completed outcomes [] = Inr []"
| "await_completed outcomes (i # later) =
     (case outcomes ! i of
        Inl e \<Rightarrow> Inl e
      | Inr v \<Rightarrow>
          (case await_completed outcomes later of
             Inl e \<Rightarrow> Inl e
           | Inr res \<Rightarrow> Inr ((i, v) # res)))"

definition gather :: "(exn + 'a) list \<Rightarrow> nat list \<Rightarrow> exn + 'a list" where
  "gather outcomes completion =
     (case await_completed outcomes completion of
        Inl e \<Rightarrow> Inl e
      | Inr res \<Rightarrow> Inr (map snd (sort_key fst res)))"

text \<open>A completion order of \<open>n\<close> tasks names each of the indices \<open>0..<n\<close> once.\<close>

definition completion_order :: "nat \<Rightarrow> nat list \<Rightarrow> bool" where
  "completion_order n completion = (sort completion = [0..<n])"

text \<open>
  \<^verbatim>\<open>results = await asyncio.gather(*[generate_dataset_label(ds_row, client, sem, taxonomy_data) for ds_row in ds])\<close>
\<close>

definition run_batch ::
    "'img list \<Rightarrow> (nat \<Rightarrow> nat \<Rightarrow> response) \<Rightarrow> taxonomy_data \<Rightarrow> nat list
       \<Rightarrow> exn + 'img labelled_item list list" where
  "run_batch ds client td completion =
     gather (map (\<lambda>(i, ds_row). generate_dataset_label ds_row (client i) td) (enumerate 0 ds))
            completion"

section \<open>The semaphore\<close>

text \<open>
  Every attempt of \<^verbatim>\<open>generate_dataset_label\<close> runs inside \<^verbatim>\<open>async with sem\<close>, and the retry
  decorator is outside of it: a task waits for a slot before each attempt (\<open>Pending\<close>),
  holds it while the call is outstanding (\<open>Holding\<close>), gives it back when the block is
  left by return or by exception, and sleeps without a slot between two attempts
  (\<open>Backoff\<close>). The semaphore is its counter: \<^verbatim>\<open>acquire\<close> waits while the counter is 0 and
  decrements it, \<^verbatim>\<open>release\<close> increments it. Tasks interleave at these points.
\<close>

datatype task_state = Pending nat | Holding nat | Backoff nat | Returned | Raised

record sched =
  sem_value :: nat
  tasks :: "task_state list"

definition initial :: "nat \<Rightarrow> nat \<Rightarrow> sched" where
  "initial K n = \<lparr>sem_value = K, tasks = replicate n (Pending 1)\<rparr>"

inductive step :: "sched \<Rightarrow> sched \<Rightarrow> bool" where
  acquire:
    "i < length (tasks s) \<Longrightarrow> tasks s ! i = Pending k \<Longrightarrow> 0 < sem_value s \<Longrightarrow>
     step s \<lparr>sem_value = sem_value s - 1, tasks = (tasks s)[i := Holding k]\<rparr>"
| return:
    "i < length (tasks s) \<Longrightarrow> tasks s ! i = Holding k \<Longrightarrow>
     step s \<lparr>sem_value = sem_value s + 1, tasks = (tasks s)[i := Returned]\<rparr>"
| raise_retry:
    "i < length (tasks s) \<Longrightarrow> tasks s ! i = Holding k \<Longrightarrow> \<not> k \<ge> 3 \<Longrightarrow>
     step s \<lparr>sem_value = sem_value s + 1, tasks = (tasks s)[i := Backoff k]\<rparr>"
| raise_last:
    "i < length (tasks s) \<Longrightarrow> tasks s ! i = Holding k \<Longrightarrow> k \<ge> 3 \<Longrightarrow>
     step s \<lparr>sem_value = sem_value s + 1, tasks = (tasks s)[i := Raised]\<rparr>"
| wake:
    "i < length (tasks s) \<Longrightarrow> tasks s ! i = Backoff k \<Longrightarrow>
     step s \<lparr>sem_value = sem_value s, tasks = (tasks s)[i := Pending (k + 1)]\<rparr>"

code_pred step .

fun holding :: "task_state \<Rightarrow> bool" where
  "holding (Holding k) = True"
| "holding _ = False"

definition in_flight :: "sched \<Rightarrow> nat" where
  "in_flight s = length (filter holding (tasks s))"

section \<open>Serialising the attributes\<close>

text \<open>
  \<^verbatim>\<open>json.dumps\<close> with its default arguments (\<^verbatim>\<open>ensure_ascii=True\<close>, separators \<^verbatim>\<open>", "\<close> and
  \<^verbatim>\<open>": "\<close>), as \<^verbatim>\<open>py_encode_basestring_ascii\<close> of the standard library writes a \<^verbatim>\<open>str\<close>: between
  double quotes; inside them the backslash, the double quote and the control characters
  backspace, form feed, newline, carriage return and tab have two-character escapes,
  the characters from space to tilde are copied, every other code point below 0x10000 is
  written \<^verbatim>\<open>\uXXXX\<close> with four lower-case hexadecimal digits, and a code point from 0x10000
  is written as two such escapes, a high and a low surrogate:
  \<^verbatim>\<open>n -= 0x10000; s1 = 0xd800 | ((n >> 10) & 0x3ff); s2 = 0xdc00 | (n & 0x3ff)\<close>.

  The code points that are named by number: 0x22 double quote, 0x5C backslash, 0x2F
  slash, 0x08 backspace, 0x0C form feed, 0x0A newline, 0x0D carriage return, 0x09 tab,
  0x62 b, 0x66 f, 0x6E n, 0x72 r, 0x74 t, 0x75 u, 0x20 space, 0x7E tilde.
\<close>

definition hex_digit :: "nat \<Rightarrow> nat" where
  "hex_digit d = py ''0123456789abcdef'' ! d"

definition hex4 :: "nat \<Rightarrow> pystr" where
  "hex4 n = [hex_digit (n div 4096 mod 16), hex_digit (n div 256 mod 16),
             hex_digit (n div 16 mod 16), hex_digit (n mod 16)]"

definition unicode_escape :: "nat \<Rightarrow> pystr" where
  "unicode_escape n = 0x5C # 0x75 # hex4 n"

definition escape_char :: "nat \<Rightarrow> pystr" where
  "escape_char c =
     (if c = 0x5C then [0x5C, 0x5C]
      else if c = 0x22 then [0x5C, 0x22]
      else if c = 0x08 then [0x5C, 0x62]
      else if c = 0x0C then [0x5C, 0x66]
      else if c = 0x0A then [0x5C, 0x6E]
      else if c = 0x0D then [0x5C, 0x72]
      else if c = 0x09 then [0x5C, 0x74]
      else if 0x20 \<le> c \<and> c \<le> 0x7E then [c]
      else if c < 0x10000 then unicode_escape c
      else
        (let n = c - 0x10000;
             s1 = 0xD800 OR (drop_bit 10 n AND 0x3FF);
             s2 = 0xDC00 OR (n AND 0x3FF)
         in unicode_escape s1 @ unicode_escape s2))"

definition py_encode_basestring_ascii :: "pystr \<Rightarrow> pystr" where
  "py_encode_basestring_ascii s = 0x22 # concat (map escape_char s) @ [0x22]"

text \<open>
  \<^verbatim>\<open>model_dump\<close> turns an attribute into the dictionary \<^verbatim>\<open>{"name": ..., "value": ...}\<close>, and
  the attribute list into the list of these dictionaries.
\<close>

definition dumps_attribute :: "ItemAttribute \<Rightarrow> pystr" where
  \<open>dumps_attribute a =
     py ''{"name": '' @ py_encode_basestring_ascii (attr_name a)
     @ py '', "value": '' @ py_encode_basestring_ascii (attr_value a) @ py ''}''\<close>

fun join_items :: "pystr list \<Rightarrow> pystr" where
  "join_items [] = []"
| "join_items [x] = x"
| "join_items (x # y # rest) = x @ py '', '' @ join_items (y # rest)"

definition json_dumps :: "ItemAttribute list \<Rightarrow> pystr" where
  "json_dumps attrs = py ''['' @ join_items (map dumps_attribute attrs) @ py '']''"

section \<open>Reading the attributes back\<close>

text \<open>
  The inverse direction, \<^verbatim>\<open>json.loads\<close>, on the texts that have the shape of a dumped
  attribute list. \<open>scanstring\<close> reads a \<^verbatim>\<open>str\<close> after its opening quote up to the closing
  one, as the scanner of the standard library does: a backslash starts an escape, a
  control character is an error, every other character is copied, and \<^verbatim>\<open>\uXXXX\<close> stands
  for the code point with that number. When that number is a high surrogate and another
  \<^verbatim>\<open>\u\<close> escape follows, the second number is decoded as well, and if it is a low
  surrogate the two stand for one code point:
  \<^verbatim>\<open>0x10000 + (((uni - 0xd800) << 10) | (uni2 - 0xdc00))\<close>.
\<close>

definition hex_value :: "nat \<Rightarrow> nat option" where
  "hex_value c =
     (if 0x30 \<le> c \<and> c \<le> 0x39 then Some (c - 0x30)
      else if 0x61 \<le> c \<and> c \<le> 0x66 then Some (c - 0x61 + 10)
      else if 0x41 \<le> c \<and> c \<le> 0x46 then Some (c - 0x41 + 10)
      else None)"

definition unhex4 :: "nat \<Rightarrow> nat \<Rightarrow> nat \<Rightarrow> nat \<Rightarrow> nat option" where
  "unhex4 a b c d =
     (case (hex_value a, hex_value b, hex_value c, hex_value d) of
        (Some x, Some y, Some z, Some w) \<Rightarrow> Some (((x * 16 + y) * 16 + z) * 16 + w)
      | _ \<Rightarrow> None)"

text \<open>The number written by the four characters at the start of a text.\<close>

definition decode_uXXXX :: "pystr \<Rightarrow> nat option" where
  "decode_uXXXX s =
     (case s of
        h1 # h2 # h3 # h4 # _ \<Rightarrow> unhex4 h1 h2 h3 h4
      | _ \<Rightarrow> None)"

definition unescape :: "nat \<Rightarrow> nat option" where
  "unescape e =
     (if e = 0x22 then Some 0x22
      else if e = 0x5C then Some 0x5C
      else if e = 0x2F then Some 0x2F
      else if e = 0x62 then Some 0x08
      else if e = 0x66 then Some 0x0C
      else if e = 0x6E then Some 0x0A
      else if e = 0x72 then Some 0x0D
      else if e = 0x74 then Some 0x09
      else None)"

function scanstring :: "pystr \<Rightarrow> (pystr \<times> pystr) option" where
  "scanstring [] = None"
| "scanstring (c # cs) =
     (if c = 0x22 then Some ([], cs)
      else if c = 0x5C then
        (case cs of
           [] \<Rightarrow> None
         | e # cs' \<Rightarrow>
             if e = 0x75 then
               (case decode_uXXXX cs' of
                  None \<Rightarrow> None
                | Some uni \<Rightarrow>
                    if 0xD800 \<le> uni \<and> uni \<le> 0xDBFF \<and> take 2 (drop 4 cs') = [0x5C, 0x75] then
                      (case decode_uXXXX (drop 6 cs') of
                         None \<Rightarrow> None
                       | Some uni2 \<Rightarrow>
                           if 0xDC00 \<le> uni2 \<and> uni2 \<le> 0xDFFF then
                             (case scanstring (drop 10 cs') of
                                None \<Rightarrow> None
                              | Some (s, rest) \<Rightarrow>
                                  Some ((0x10000 + (push_bit 10 (uni - 0xD800) OR (uni2 - 0xDC00))) # s,
                                        rest))
                           else
                             (case scanstring (drop 4 cs') of
                                None \<Rightarrow> None
                              | Some (s, rest) \<Rightarrow> Some (uni # s, rest)))
                    else
                      (case scanstring (drop 4 cs') of
                         None \<Rightarrow> None
                       | Some (s, rest) \<Rightarrow> Some (uni # s, rest)))
             else
               (case unescape e of
                  None \<Rightarrow> None
                | Some d \<Rightarrow>
                    (case scanstring cs' of
                       None \<Rightarrow> None
                     | Some (s, rest) \<Rightarrow> Some (d # s, rest))))
      else if c < 0x20 then None
      else
        (case scanstring cs of
           None \<Rightarrow> None
         | Some (s, rest) \<Rightarrow> Some (c # s, rest)))"
  by pat_completeness auto
termination
  by (relation "measure length") auto

declare scanstring.simps [simp del]

text \<open>A quoted \<^verbatim>\<open>str\<close>: the opening quote, then \<open>scanstring\<close>.\<close>

definition scan_quoted :: "pystr \<Rightarrow> (pystr \<times> pystr) option" where
  "scan_quoted s =
     (case s of
        [] \<Rightarrow> None
      | c # cs \<Rightarrow> if c = 0x22 then scanstring cs else None)"

definition expect :: "pystr \<Rightarrow> pystr \<Rightarrow> pystr option" where
  "expect lit s = (if take (length lit) s = lit then Some (drop (length lit) s) else None)"

definition loads_attribute :: "pystr \<Rightarrow> (ItemAttribute \<times> pystr) option" where
  \<open>loads_attribute s =
     (case expect (py ''{"name": '') s of
        None \<Rightarrow> None
      | Some s1 \<Rightarrow>
          (case scan_quoted s1 of
             None \<Rightarrow> None
           | Some (n, s2) \<Rightarrow>
               (case expect (py '', "value": '') s2 of
                  None \<Rightarrow> None
                | Some s3 \<Rightarrow>
                    (case scan_quoted s3 of
                       None \<Rightarrow> None
                     | Some (v, s4) \<Rightarrow>
                         (case expect (py ''}'') s4 of
                            None \<Rightarrow> None
                          | Some s5 \<Rightarrow> Some (\<lparr>attr_name = n, attr_value = v\<rparr>, s5))))))\<close>

text \<open>
  The elements of the array after the first: each is announced by \<^verbatim>\<open>", "\<close>, and \<^verbatim>\<open>"]"\<close>
  ends the array, after which nothing may follow. The fuel bounds the number of
  elements; the length of the text is always enough.
\<close>

fun loads_more :: "nat \<Rightarrow> pystr \<Rightarrow> ItemAttribute list option" where
  "loads_more 0 s = None"
| "loads_more (Suc fuel) s =
     (if s = py '']'' then Some []
      else
        (case expect (py '', '') s of
           None \<Rightarrow> None
         | Some s1 \<Rightarrow>
             (case loads_attribute s1 of
                None \<Rightarrow> None
              | Some (a, s2) \<Rightarrow>
                  (case loads_more fuel s2 of
                     None \<Rightarrow> None
                   | Some rest \<Rightarrow> Some (a # rest)))))"

definition json_loads :: "pystr \<Rightarrow> ItemAttribute list option" where
  "json_loads s =
     (case expect (py ''['') s of
        None \<Rightarrow> None
      | Some s1 \<Rightarrow>
          if s1 = py '']'' then Some []
          else
            (case loads_attribute s1 of
               None \<Rightarrow> None
             | Some (a, s2) \<Rightarrow>
                 (case loads_more (length s2) s2 of
                    None \<Rightarrow> None
                  | Some rest \<Rightarrow> Some (a # rest))))"

text \<open>
  What \<open>json_dumps\<close> writes after the first element of a non-empty list.
\<close>

fun rest_of_array :: "ItemAttribute list \<Rightarrow> pystr" where
  "rest_of_array [] = py '']''"
| "rest_of_array (a # others) = py '', '' @ dumps_attribute a @ rest_of_array others"

text \<open>An attribute list whose names and values are well-formed.\<close>

definition well_formed_attributes :: "ItemAttribute list \<Rightarrow> bool" where
  "well_formed_attributes attrs =
     list_all (\<lambda>a. well_formed (attr_name a) \<and> well_formed (attr_value a)) attrs"

section \<open>Flattening and assembly\<close>

text \<open>
  The flattened records are dictionaries with values of several kinds. \<^verbatim>\<open>model_dump\<close>
  lists the fields of the model in the order of their declaration. A dictionary display
  \<^verbatim>\<open>{**d, k: v, ...}\<close> inserts its entries from left to right into an empty dictionary;
  inserting an existing key replaces its value and keeps its position.
\<close>

datatype ('img, 'price) pyvalue =
  PyImage 'img
  | PyStr pystr
  | PyInt int
  | PyFloat 'price
  | PyAttrs "ItemAttribute list"

type_synonym ('img, 'price) pydict = "(string \<times> ('img, 'price) pyvalue) list"

definition model_dump :: "ItemMetadata \<Rightarrow> ('img, 'price) pydict" where
  "model_dump m =
     [(''title'', PyStr (title m)),
      (''brand'', PyStr (brand m)),
      (''description'', PyStr (description m)),
      (''category'', PyStr (category m)),
      (''subcategory'', PyStr (subcategory m)),
      (''product_type'', PyStr (product_type m)),
      (''attributes'', PyAttrs (attributes m)),
      (''material'', PyStr (material m)),
      (''pattern'', PyStr (pattern m))]"

definition dict_display :: "('k \<times> 'v) list \<Rightarrow> ('k \<times> 'v) list" where
  "dict_display entries = fold (\<lambda>(k, v). AList.update k v) entries []"

text \<open>
  \<^verbatim>\<open>flatten_item(item, id)\<close>. The price, \<^verbatim>\<open>round(random.uniform(10.0, 400.0), 2)\<close>, is a
  floating-point number drawn from the random generator; it is a parameter.
  \<^verbatim>\<open>flattened_item["attributes"]\<close> raises \<^verbatim>\<open>KeyError\<close> on a missing key, and \<open>json_dumps\<close> is
  defined on attribute lists.
\<close>

definition flatten_item ::
    "'img labelled_item \<Rightarrow> int \<Rightarrow> 'price \<Rightarrow> exn + ('img, 'price) pydict" where
  "flatten_item item ident price =
     (let flattened_item =
            dict_display ((''image'', PyImage (image_obj item)) # model_dump (metadata item))
      in case map_of flattened_item ''attributes'' of
           None \<Rightarrow> Inl (KeyError ''attributes'')
         | Some (PyAttrs attrs) \<Rightarrow>
             Inr (dict_display
                    (flattened_item @
                     [(''id'', PyInt ident),
                      (''price'', PyFloat price),
                      (''attributes'', PyStr (json_dumps attrs))]))
         | Some _ \<Rightarrow> Inl TypeError)"

text \<open>\<^verbatim>\<open>flattened_results = [item for sublist in results for item in sublist]\<close>\<close>

definition flattened_results :: "'a list list \<Rightarrow> 'a list" where
  "flattened_results results = concat results"

text \<open>
  \<^verbatim>\<open>hf_dataset_items = [flatten_item(item, id + 1) for id, item in enumerate(flattened_results)]\<close>.
  The comprehension stops at the first call that raises. \<open>price k\<close> is the price drawn in
  the call for the element at position \<open>k\<close>.
\<close>

fun collect :: "(exn + 'a) list \<Rightarrow> exn + 'a list" where
  "collect [] = Inr []"
| "collect (r # rs) =
     (case r of
        Inl e \<Rightarrow> Inl e
      | Inr v \<Rightarrow> (case collect rs of Inl e \<Rightarrow> Inl e | Inr vs \<Rightarrow> Inr (v # vs)))"

definition hf_dataset_items ::
    "'img labelled_item list \<Rightarrow> (nat \<Rightarrow> 'price) \<Rightarrow> exn + ('img, 'price) pydict list" where
  "hf_dataset_items flattened price =
     collect (map (\<lambda>(i, item). flatten_item item (int i + 1) (price i)) (enumerate 0 flattened))"

definition assemble ::
    "'img labelled_item list list \<Rightarrow> (nat \<Rightarrow> 'price) \<Rightarrow> exn + ('img, 'price) pydict list" where
  "assemble results price = hf_dataset_items (flattened_results results) price"

section \<open>The checks of the validation, one by one\<close>

text \<open>
  The seven membership checks, each as a predicate of the taxonomy and the record. The
  checks below the category need the dictionary found by the checks above them;
  \<open>lookup_subcategory\<close> is \<^verbatim>\<open>taxonomy_map[self.category][self.subcategory]\<close> where both keys
  exist.
\<close>

datatype check =
  CategoryCheck
  | SubcategoryCheck
  | ProductTypeCheck
  | AttributeNameCheck pystr
  | AttributeValueCheck pystr pystr
  | MaterialCheck
  | PatternCheck

definition lookup_subcategory :: "taxonomy_data \<Rightarrow> ItemMetadata \<Rightarrow> subcategory_data option" where
  "lookup_subcategory td c =
     (case map_of (taxonomy_map td) (category c) of
        None \<Rightarrow> None
      | Some subs \<Rightarrow> map_of subs (subcategory c))"

definition category_ok :: "taxonomy_data \<Rightarrow> ItemMetadata \<Rightarrow> bool" where
  "category_ok td c = (category c \<in> set (map fst (taxonomy_map td)))"

definition subcategory_ok :: "taxonomy_data \<Rightarrow> ItemMetadata \<Rightarrow> bool" where
  "subcategory_ok td c =
     (case map_of (taxonomy_map td) (category c) of
        None \<Rightarrow> False
      | Some subs \<Rightarrow> subcategory c \<in> set (map fst subs))"

definition product_type_ok :: "taxonomy_data \<Rightarrow> ItemMetadata \<Rightarrow> bool" where
  "product_type_ok td c =
     (case lookup_subcategory td c of
        None \<Rightarrow> False
      | Some sd \<Rightarrow> product_type c \<in> set (sub_product_type sd))"

definition attribute_name_ok :: "taxonomy_data \<Rightarrow> ItemMetadata \<Rightarrow> ItemAttribute \<Rightarrow> bool" where
  "attribute_name_ok td c a =
     (case lookup_subcategory td c of
        None \<Rightarrow> False
      | Some sd \<Rightarrow> attr_name a \<in> set (map fst (sub_attributes sd)))"

definition attribute_value_ok :: "taxonomy_data \<Rightarrow> ItemMetadata \<Rightarrow> ItemAttribute \<Rightarrow> bool" where
  "attribute_value_ok td c a =
     (case lookup_subcategory td c of
        None \<Rightarrow> False
      | Some sd \<Rightarrow>
          (case map_of (sub_attributes sd) (attr_name a) of
             None \<Rightarrow> False
           | Some vals \<Rightarrow> attr_value a \<in> set vals))"

definition material_ok :: "taxonomy_data \<Rightarrow> ItemMetadata \<Rightarrow> bool" where
  "material_ok td c = (material c \<in> set (Material (common_attributes td)))"

definition pattern_ok :: "taxonomy_data \<Rightarrow> ItemMetadata \<Rightarrow> bool" where
  "pattern_ok td c = (pattern c \<in> set (Pattern (common_attributes td)))"

fun attribute_checks :: "taxonomy_data \<Rightarrow> ItemMetadata \<Rightarrow> ItemAttribute list \<Rightarrow> (check \<times> bool) list" where
  "attribute_checks td c [] = []"
| "attribute_checks td c (a # rest) =
     (AttributeNameCheck (attr_name a), attribute_name_ok td c a)
     # (AttributeValueCheck (attr_name a) (attr_value a), attribute_value_ok td c a)
     # attribute_checks td c rest"

text \<open>
  The order in which the specification lists the checks: category, subcategory, product
  type, the attributes (name, then value, attribute by attribute), material, pattern.
\<close>

definition checks_in_spec_order :: "taxonomy_data \<Rightarrow> ItemMetadata \<Rightarrow> (check \<times> bool) list" where
  "checks_in_spec_order td c =
     [(CategoryCheck, category_ok td c),
      (SubcategoryCheck, subcategory_ok td c),
      (ProductTypeCheck, product_type_ok td c)]
     @ attribute_checks td c (attributes c)
     @ [(MaterialCheck, material_ok td c),
        (PatternCheck, pattern_ok td c)]"

text \<open>
  The order in which the two validators run them: pattern and material in the first
  validator, then category, subcategory, product type and the attributes in the second.
\<close>

definition checks_in_code_order :: "taxonomy_data \<Rightarrow> ItemMetadata \<Rightarrow> (check \<times> bool) list" where
  "checks_in_code_order td c =
     [(PatternCheck, pattern_ok td c),
      (MaterialCheck, material_ok td c),
      (CategoryCheck, category_ok td c),
      (SubcategoryCheck, subcategory_ok td c),
      (ProductTypeCheck, product_type_ok td c)]
     @ attribute_checks td c (attributes c)"

fun first_failing :: "(check \<times> bool) list \<Rightarrow> check option" where
  "first_failing [] = None"
| "first_failing ((k, ok) # rest) = (if ok then first_failing rest else Some k)"

text \<open>
  Which check an error reports, read off its message: the leading literal names the
  field, the first interpolated string is the rejected value, and the message of a
  rejected attribute value names the attribute after it.
\<close>

fun signalled_check :: "exn \<Rightarrow> check option" where
  "signalled_check (ValueError (Lit l # Str v # rest)) =
     (if l = ''Category '' then Some CategoryCheck
      else if l = ''Subcategory '' then Some SubcategoryCheck
      else if l = ''Product type '' then Some ProductTypeCheck
      else if l = ''Attribute '' then Some (AttributeNameCheck v)
      else if l = ''Value '' then
        (case rest of
           Lit _ # Str n # _ \<Rightarrow> Some (AttributeValueCheck n v)
         | _ \<Rightarrow> None)
      else if l = ''Material '' then Some MaterialCheck
      else if l = ''Pattern '' then Some PatternCheck
      else None)"
| "signalled_check _ = None"

definition signalled :: "exn + ItemMetadata \<Rightarrow> check option" where
  "signalled r = (case r of Inl e \<Rightarrow> signalled_check e | Inr _ \<Rightarrow> None)"

text \<open>
  For each check, the value it rejects and the values it would have accepted.
\<close>

fun rejected_value :: "ItemMetadata \<Rightarrow> check \<Rightarrow> pystr" where
  "rejected_value c CategoryCheck = category c"
| "rejected_value c SubcategoryCheck = subcategory c"
| "rejected_value c ProductTypeCheck = product_type c"
| "rejected_value c (AttributeNameCheck n) = n"
| "rejected_value c (AttributeValueCheck n v) = v"
| "rejected_value c MaterialCheck = material c"
| "rejected_value c PatternCheck = pattern c"

fun accepted_values :: "taxonomy_data \<Rightarrow> ItemMetadata \<Rightarrow> check \<Rightarrow> pystr list" where
  "accepted_values td c CategoryCheck = map fst (taxonomy_map td)"
| "accepted_values td c SubcategoryCheck =
     (case map_of (taxonomy_map td) (category c) of
        None \<Rightarrow> []
      | Some subs \<Rightarrow> map fst subs)"
| "accepted_values td c ProductTypeCheck =
     (case lookup_subcategory td c of
        None \<Rightarrow> []
      | Some sd \<Rightarrow> sub_product_type sd)"
| "accepted_values td c (AttributeNameCheck n) =
     (case lookup_subcategory td c of
        None \<Rightarrow> []
      | Some sd \<Rightarrow> map fst (sub_attributes sd))"
| "accepted_values td c (AttributeValueCheck n v) =
     (case lookup_subcategory td c of
        None \<Rightarrow> []
      | Some sd \<Rightarrow> (case map_of (sub_attributes sd) n of None \<Rightarrow> [] | Some vals \<Rightarrow> vals))"
| "accepted_values td c MaterialCheck = Material (common_attributes td)"
| "accepted_values td c PatternCheck = Pattern (common_attributes td)"

text \<open>
  An error speaks about a check when its message leads with the name of the field and
  holds the rejected value and, except for the subcategory, the list of the accepted
  values.
\<close>

definition says :: "taxonomy_data \<Rightarrow> ItemMetadata \<Rightarrow> exn \<Rightarrow> check \<Rightarrow> bool" where
  "says td c e k =
     (case e of
        ValueError frags \<Rightarrow>
          signalled_check e = Some k
          \<and> Str (rejected_value c k) \<in> set frags
          \<and> (k = SubcategoryCheck \<or> StrList (accepted_values td c k) \<in> set frags)
      | _ \<Rightarrow> False)"

section \<open>A small taxonomy and some records\<close>

text \<open>
  The taxonomy of the specification's scenario: category Women, subcategory Tops, product
  type Tank Tops, attribute Sleeve Length with the values Sleeveless and Short.
\<close>

definition tops :: subcategory_data where
  "tops = \<lparr>sub_product_type = [py ''Tank Tops''],
           sub_attributes = [(py ''Sleeve Length'', [py ''Sleeveless'', py ''Short''])]\<rparr>"

definition small_taxonomy :: taxonomy_data where
  "small_taxonomy =
     \<lparr>taxonomy_map = [(py ''Women'', [(py ''Tops'', tops)])],
      common_attributes =
        \<lparr>Size = [py ''S'', py ''M''], Color = [py ''Black''], Material = [py ''Cotton''],
         Pattern = [py ''Solid''], Occasion = [py ''Casual'']\<rparr>\<rparr>"

text \<open>A record whose category and pattern are both outside the taxonomy.\<close>

definition plaid_kids_top :: ItemMetadata where
  "plaid_kids_top =
     \<lparr>title = py ''Plaid Top'', brand = py ''Gap'', description = py ''A top.'',
      category = py ''Kids'', subcategory = py ''Tops'', product_type = py ''Tank Tops'',
      attributes = [], material = py ''Cotton'', pattern = py ''Plaid''\<rparr>"

text \<open>A record whose subcategory does not exist under its category.\<close>

definition womens_hat :: ItemMetadata where
  "womens_hat =
     \<lparr>title = py ''Sun Hat'', brand = py ''Zara'', description = py ''A hat.'',
      category = py ''Women'', subcategory = py ''Hats'', product_type = py ''Sun Hats'',
      attributes = [], material = py ''Cotton'', pattern = py ''Solid''\<rparr>"

definition tank_top :: ItemMetadata where
  "tank_top =
     \<lparr>title = py ''Lace Detail Sleeveless Top'', brand = py ''H&M'', description = py ''A top.'',
      category = py ''Women'', subcategory = py ''Tops'', product_type = py ''Tank Tops'',
      attributes = [\<lparr>attr_name = py ''Sleeve Length'', attr_value = py ''Sleeveless''\<rparr>],
      material = py ''Cotton'', pattern = py ''Solid''\<rparr>"

text \<open>
  The labels of a batch of two rows: one item in the first row, two in the second.
\<close>

definition two_rows :: "string labelled_item list list" where
  "two_rows =
     [[\<lparr>image_obj = ''a.png'', metadata = tank_top\<rparr>],
      [\<lparr>image_obj = ''b.png'', metadata = tank_top\<rparr>,
       \<lparr>image_obj = ''b.png'', metadata = plaid_kids_top\<rparr>]]"

text \<open>
  A record with an attribute value beyond ASCII: a Latin-1 letter and a code point
  above 0xFFFF.
\<close>

definition cafe_top :: ItemMetadata where
  "cafe_top =
     tank_top\<lparr>attributes :=
       [\<lparr>attr_name = py ''Fit'', attr_value = py ''Caf'' @ [0xE9, 0x20, 0x1F600]\<rparr>]\<rparr>"

text \<open>
  Two model services for a batch of two rows. With the first, task 0 times out once and
  then answers with the tank top, and task 1 answers at once with no item. With the
  second, task 0 never answers in time and task 1 answers with the tank top.
\<close>

definition slow_then_fine :: "nat \<Rightarrow> nat \<Rightarrow> response" where
  "slow_then_fine i k =
     (if i = 0 then (if k = 1 then TimedOut else Completed [tank_top]) else Completed [])"

definition first_never_answers :: "nat \<Rightarrow> nat \<Rightarrow> response" where
  "first_never_answers i k = (if i = 0 then TimedOut else Completed [tank_top])"

section \<open>Literals\<close>

lemma py_eq_iff [simp]: "py a = py b \<longleftrightarrow> a = b"
  unfolding py_def by (rule inj_map_eq_map) (rule inj_of_char)

lemma length_py [simp]: "length (py s) = length s"
  by (simp add: py_def)

lemma well_formed_py [simp]: "well_formed (py s)"
proof -
  have "scalar_value (of_char c)" for c :: char
    using nat_of_char_less_256 [of c] unfolding scalar_value_def by linarith
  then show ?thesis by (simp add: well_formed_def py_def list_all_iff)
qed

lemma well_formed_simps:
  "well_formed []"
  "well_formed (c # s) \<longleftrightarrow> scalar_value c \<and> well_formed s"
  "well_formed (s @ t) \<longleftrightarrow> well_formed s \<and> well_formed t"
  by (simp_all add: well_formed_def)

section \<open>Validation: helper lemmas\<close>

lemma validate_attributes_Inr_iff:
  "validate_attributes sub sd attrs = Inr u \<longleftrightarrow>
     list_all (\<lambda>a. case map_of (sub_attributes sd) (attr_name a) of
                      None \<Rightarrow> False | Some vals \<Rightarrow> attr_value a \<in> set vals) attrs"
  by (induction attrs) (auto split: option.splits)

lemma validate_material_and_pattern_Inr:
  "validate_material_and_pattern obj ctx = Inr r \<Longrightarrow>
     r = obj \<and> (\<exists>td. ctx = Some (Some td)
       \<and> pattern obj \<in> set (Pattern (common_attributes td))
       \<and> material obj \<in> set (Material (common_attributes td)))"
  by (auto simp: validate_material_and_pattern_def split: option.splits if_splits)

lemma validate_category_and_attributes_Inr:
  "validate_category_and_attributes obj (Some (Some td)) = Inr r \<Longrightarrow>
     r = obj \<and> (\<exists>subs sd. map_of (taxonomy_map td) (category obj) = Some subs
       \<and> map_of subs (subcategory obj) = Some sd
       \<and> product_type obj \<in> set (sub_product_type sd)
       \<and> validate_attributes (subcategory obj) sd (attributes obj) = Inr ())"
  by (auto simp: validate_category_and_attributes_def split: option.splits if_splits sum.splits)

lemma map_of_Some_key: "map_of m k = Some v \<Longrightarrow> k \<in> set (map fst m)"
  by (auto dest: map_of_SomeD simp: image_iff intro: bexI [where x = "(k, v)"])

lemma key_iff: "k \<in> fst ` set m \<longleftrightarrow> map_of m k \<noteq> None"
  by (simp add: map_of_eq_None_iff)

lemma tank_top_accepted:
  "model_validate tank_top (Some (Some small_taxonomy)) = Inr tank_top"
  by (simp add: model_validate_def validate_material_and_pattern_def
        validate_category_and_attributes_def small_taxonomy_def tank_top_def tops_def)

section \<open>C1: an accepted record lies in the taxonomy\<close>

text \<open>
  C1. If validation accepts a record, it returns the record unchanged, a taxonomy was
  supplied, and in that taxonomy the category is a key of the taxonomy map, the
  subcategory a key under the category, the product type in the list of that
  subcategory, every attribute name a key of the subcategory's attributes with the
  attribute value in the list stored under it, the material in the material vocabulary
  and the pattern in the pattern vocabulary.
\<close>

theorem accepted_record_is_in_taxonomy:
  assumes "model_validate c ctx = Inr r"
  shows "r = c \<and> (\<exists>td subs sd. ctx = Some (Some td)
      \<and> category c \<in> set (map fst (taxonomy_map td))
      \<and> map_of (taxonomy_map td) (category c) = Some subs
      \<and> subcategory c \<in> set (map fst subs)
      \<and> map_of subs (subcategory c) = Some sd
      \<and> product_type c \<in> set (sub_product_type sd)
      \<and> (\<forall>a \<in> set (attributes c). \<exists>vals.
            attr_name a \<in> set (map fst (sub_attributes sd))
          \<and> map_of (sub_attributes sd) (attr_name a) = Some vals
          \<and> attr_value a \<in> set vals)
      \<and> material c \<in> set (Material (common_attributes td))
      \<and> pattern c \<in> set (Pattern (common_attributes td)))"
proof -
  from assms obtain s where s: "validate_material_and_pattern c ctx = Inr s"
    and v: "validate_category_and_attributes s ctx = Inr r"
    by (auto simp: model_validate_def split: sum.splits)
  from validate_material_and_pattern_Inr [OF s] obtain td where
    sc: "s = c" and ctx: "ctx = Some (Some td)"
    and pat: "pattern c \<in> set (Pattern (common_attributes td))"
    and mat: "material c \<in> set (Material (common_attributes td))"
    by blast
  from validate_category_and_attributes_Inr [OF v [unfolded ctx sc]] obtain subs sd where
    rc: "r = c" and cat: "map_of (taxonomy_map td) (category c) = Some subs"
    and sub: "map_of subs (subcategory c) = Some sd"
    and pt: "product_type c \<in> set (sub_product_type sd)"
    and attrs: "validate_attributes (subcategory c) sd (attributes c) = Inr ()"
    by blast
  from attrs have "\<forall>a \<in> set (attributes c). \<exists>vals.
       map_of (sub_attributes sd) (attr_name a) = Some vals \<and> attr_value a \<in> set vals"
    by (auto simp: validate_attributes_Inr_iff list_all_iff split: option.splits)
  then have all: "\<forall>a \<in> set (attributes c). \<exists>vals.
       attr_name a \<in> set (map fst (sub_attributes sd))
       \<and> map_of (sub_attributes sd) (attr_name a) = Some vals \<and> attr_value a \<in> set vals"
    by (metis map_of_Some_key)
  show ?thesis
    using rc ctx cat sub pt pat mat all map_of_Some_key [OF cat] map_of_Some_key [OF sub]
    by blast
qed

theorem accepted_record_is_in_taxonomy_witness:
  "model_validate tank_top (Some (Some small_taxonomy)) = Inr tank_top
   \<and> category tank_top \<in> set (map fst (taxonomy_map small_taxonomy))
   \<and> material tank_top \<in> set (Material (common_attributes small_taxonomy))
   \<and> pattern tank_top \<in> set (Pattern (common_attributes small_taxonomy))"
proof -
  have a: "model_validate tank_top (Some (Some small_taxonomy)) = Inr tank_top"
    by (rule tank_top_accepted)
  from accepted_record_is_in_taxonomy [OF a] show ?thesis
    using a by auto
qed

section \<open>C3: the order of the checks\<close>

lemma validate_attributes_order:
  assumes "lookup_subcategory td c = Some sd"
  shows "(case validate_attributes sub sd attrs of Inl e \<Rightarrow> signalled_check e | Inr _ \<Rightarrow> None)
         = first_failing (attribute_checks td c attrs)"
  using assms
  by (induction attrs)
     (auto simp: attribute_name_ok_def attribute_value_ok_def key_iff split: option.splits)

lemma validate_attributes_accepts:
  assumes "lookup_subcategory td c = Some sd"
  shows "(\<exists>u. validate_attributes sub sd attrs = Inr u)
         \<longleftrightarrow> first_failing (attribute_checks td c attrs) = None"
  using assms
  by (induction attrs)
     (auto simp: attribute_name_ok_def attribute_value_ok_def key_iff split: option.splits)

text \<open>
  C3, as the code has it. Validation is fail-fast in this order: pattern, material,
  category, subcategory, product type, then attribute by attribute the name and the
  value. The error that is raised is the one of the first check in this order that
  fails, and the record is accepted exactly when none fails.
\<close>

theorem validation_order_of_the_code:
  "signalled (model_validate c (Some (Some td))) = first_failing (checks_in_code_order td c)
   \<and> (model_validate c (Some (Some td)) = Inr c
        \<longleftrightarrow> first_failing (checks_in_code_order td c) = None)"
proof (cases "pattern_ok td c \<and> material_ok td c")
  case False
  then show ?thesis
    by (auto simp: signalled_def model_validate_def validate_material_and_pattern_def
          checks_in_code_order_def pattern_ok_def material_ok_def)
next
  case True
  then have first: "validate_material_and_pattern c (Some (Some td)) = Inr c"
    by (simp add: validate_material_and_pattern_def pattern_ok_def material_ok_def)
  show ?thesis
  proof (cases "lookup_subcategory td c")
    case None
    then show ?thesis using True first
      by (auto simp: signalled_def model_validate_def validate_category_and_attributes_def
            checks_in_code_order_def category_ok_def subcategory_ok_def lookup_subcategory_def
            key_iff
            split: option.splits)
  next
    case (Some sd)
    then obtain subs where cat: "map_of (taxonomy_map td) (category c) = Some subs"
      and sub: "map_of subs (subcategory c) = Some sd"
      by (auto simp: lookup_subcategory_def split: option.splits)
    have ok: "category_ok td c" "subcategory_ok td c"
      using cat sub by (auto simp: category_ok_def subcategory_ok_def dest: map_of_Some_key)
    show ?thesis
    proof (cases "product_type_ok td c")
      case False
      then show ?thesis using True first ok cat sub Some
        by (simp add: signalled_def model_validate_def validate_category_and_attributes_def
              checks_in_code_order_def product_type_ok_def)
    next
      case pt: True
      have eq: "model_validate c (Some (Some td)) =
          (case validate_attributes (subcategory c) sd (attributes c) of
             Inl e \<Rightarrow> Inl e | Inr _ \<Rightarrow> Inr c)"
        using first cat sub pt Some
        by (simp add: model_validate_def validate_category_and_attributes_def product_type_ok_def)
      have ff: "first_failing (checks_in_code_order td c)
          = first_failing (attribute_checks td c (attributes c))"
        using True ok pt by (simp add: checks_in_code_order_def)
      show ?thesis
        using validate_attributes_order [OF Some, of "subcategory c" "attributes c"]
          validate_attributes_accepts [OF Some, of "subcategory c" "attributes c"]
        by (auto simp: eq ff signalled_def split: sum.splits)
    qed
  qed
qed

theorem validation_order_of_the_code_witness:
  "signalled (model_validate womens_hat (Some (Some small_taxonomy))) = Some SubcategoryCheck
   \<and> model_validate womens_hat (Some (Some small_taxonomy)) \<noteq> Inr womens_hat"
  using validation_order_of_the_code [of womens_hat small_taxonomy]
  by (simp add: checks_in_code_order_def pattern_ok_def material_ok_def category_ok_def
        subcategory_ok_def small_taxonomy_def womens_hat_def)

text \<open>
  C3, as the specification has it, fails: for a record whose category and pattern are
  both invalid the first failing check in the specification's order is the category,
  and the error raised is the one of the pattern.
\<close>

theorem validation_order_counterexample:
  "first_failing (checks_in_spec_order small_taxonomy plaid_kids_top) = Some CategoryCheck
   \<and> signalled (model_validate plaid_kids_top (Some (Some small_taxonomy))) = Some PatternCheck"
  by (simp add: checks_in_spec_order_def category_ok_def signalled_def model_validate_def
        validate_material_and_pattern_def small_taxonomy_def plaid_kids_top_def)

section \<open>C4: what the error of a rejected record says\<close>

lemma validate_attributes_says:
  assumes "lookup_subcategory td c = Some sd"
    and "validate_attributes sub sd attrs = Inl e"
  shows "\<exists>k. says td c e k"
  using assms
proof (induction attrs)
  case Nil
  then show ?case by simp
next
  case (Cons a attrs)
  show ?case
  proof (cases "map_of (sub_attributes sd) (attr_name a)")
    case None
    with Cons.prems have "says td c e (AttributeNameCheck (attr_name a))"
      by (auto simp: says_def)
    then show ?thesis ..
  next
    case (Some vals)
    show ?thesis
    proof (cases "attr_value a \<in> set vals")
      case True
      with Some Cons show ?thesis by simp
    next
      case False
      with Some Cons.prems have "says td c e (AttributeValueCheck (attr_name a) (attr_value a))"
        by (auto simp: says_def)
      then show ?thesis ..
    qed
  qed
qed

lemma rejection_says:
  assumes "model_validate c (Some (Some td)) = Inl e"
  shows "\<exists>k. says td c e k"
proof (cases "validate_material_and_pattern c (Some (Some td))")
  case (Inl e')
  with assms have e: "e' = e" by (simp add: model_validate_def)
  from Inl [unfolded e] have "says td c e PatternCheck \<or> says td c e MaterialCheck"
    by (auto simp: validate_material_and_pattern_def says_def split: if_splits)
  then show ?thesis by blast
next
  case (Inr s)
  then have s: "s = c"
    by (auto simp: validate_material_and_pattern_def split: if_splits)
  from assms Inr s have v: "validate_category_and_attributes c (Some (Some td)) = Inl e"
    by (simp add: model_validate_def)
  show ?thesis
  proof (cases "map_of (taxonomy_map td) (category c)")
    case None
    with v have "says td c e CategoryCheck"
      by (auto simp: validate_category_and_attributes_def says_def)
    then show ?thesis ..
  next
    case cat: (Some subs)
    show ?thesis
    proof (cases "map_of subs (subcategory c)")
      case None
      with v cat have "says td c e SubcategoryCheck"
        by (auto simp: validate_category_and_attributes_def says_def)
      then show ?thesis ..
    next
      case sub: (Some sd)
      then have l: "lookup_subcategory td c = Some sd"
        using cat by (simp add: lookup_subcategory_def)
      show ?thesis
      proof (cases "product_type c \<in> set (sub_product_type sd)")
        case False
        with v cat sub l have "says td c e ProductTypeCheck"
          by (auto simp: validate_category_and_attributes_def says_def)
        then show ?thesis ..
      next
        case True
        with v cat sub have "validate_attributes (subcategory c) sd (attributes c) = Inl e"
          by (auto simp: validate_category_and_attributes_def split: sum.splits)
        from validate_attributes_says [OF l this] show ?thesis .
      qed
    qed
  qed
qed

text \<open>
  C4. The error of a rejected subcategory names the field, the rejected value and the
  category, and does not list the accepted subcategories: the message has no list in
  it, unlike the messages of the other six checks.
\<close>

theorem subcategory_error_lists_no_valid_values:
  "model_validate womens_hat (Some (Some small_taxonomy)) =
     Inl (ValueError [Lit ''Subcategory '', Str (py ''Hats''),
            Lit '' does not exist under category '', Str (py ''Women'')])
   \<and> accepted_values small_taxonomy womens_hat SubcategoryCheck = [py ''Tops'']
   \<and> StrList [py ''Tops''] \<notin> set [Lit ''Subcategory '', Str (py ''Hats''),
            Lit '' does not exist under category '', Str (py ''Women'')]"
  by (simp add: model_validate_def validate_material_and_pattern_def
        validate_category_and_attributes_def small_taxonomy_def womens_hat_def tops_def)

section \<open>C8: a record without attributes\<close>

text \<open>
  C8. A record with an empty attribute list whose category, subcategory, product type,
  material and pattern pass their membership checks is accepted.
\<close>

theorem empty_attributes_accepted:
  assumes "map_of (taxonomy_map td) (category c) = Some subs"
    and "map_of subs (subcategory c) = Some sd"
    and "product_type c \<in> set (sub_product_type sd)"
    and "material c \<in> set (Material (common_attributes td))"
    and "pattern c \<in> set (Pattern (common_attributes td))"
    and "attributes c = []"
  shows "model_validate c (Some (Some td)) = Inr c"
  using assms
  by (simp add: model_validate_def validate_material_and_pattern_def
        validate_category_and_attributes_def)

theorem empty_attributes_accepted_witness:
  "model_validate (tank_top\<lparr>attributes := []\<rparr>) (Some (Some small_taxonomy))
     = Inr (tank_top\<lparr>attributes := []\<rparr>)"
  by (rule empty_attributes_accepted [where subs = "[(py ''Tops'', tops)]" and sd = tops])
     (simp_all add: small_taxonomy_def tank_top_def tops_def)

section \<open>The batch: helper lemmas\<close>

lemma map_insort_key: "map f (insort_key f x xs) = insort (f x) (map f xs)"
  by (induction xs) auto

lemma map_sort_key: "map f (sort_key f xs) = sort (map f xs)"
  by (induction xs) (auto simp: map_insort_key)

lemma completion_order_set:
  assumes "completion_order n completion"
  shows "set completion = {0..<n}"
proof -
  have "set completion = set (sort completion)" by simp
  also have "\<dots> = {0..<n}" using assms by (simp only: completion_order_def set_upt)
  finally show ?thesis .
qed

lemma await_completed_Inr:
  "await_completed outcomes completion = Inr res \<longleftrightarrow>
     map fst res = completion \<and> (\<forall>(i, v) \<in> set res. outcomes ! i = Inr v)"
proof (induction completion arbitrary: res)
  case Nil
  then show ?case by auto
next
  case (Cons i later)
  show ?case
  proof (cases "outcomes ! i")
    case (Inl e)
    then show ?thesis by (cases res) auto
  next
    case (Inr v)
    show ?thesis
    proof (cases "await_completed outcomes later")
      case (Inl e)
      with Inr Cons.IH show ?thesis by (cases res) auto
    next
      case r: (Inr rest)
      with Inr Cons.IH [of rest] Cons.IH show ?thesis
        by (cases res) auto
    qed
  qed
qed

lemma await_completed_Inl:
  "await_completed outcomes completion = Inl e \<Longrightarrow>
     \<exists>i \<in> set completion. outcomes ! i = Inl e"
  by (induction completion) (auto split: sum.splits)

lemma await_completed_all_Inr:
  "(\<forall>i \<in> set completion. \<exists>v. outcomes ! i = Inr v) \<Longrightarrow>
     \<exists>res. await_completed outcomes completion = Inr res"
  by (induction completion) (auto split: sum.splits)

lemma gather_Inr:
  assumes co: "completion_order (length outcomes) completion"
  shows "gather outcomes completion = Inr results \<longleftrightarrow> outcomes = map Inr results"
proof
  assume g: "gather outcomes completion = Inr results"
  then obtain res where res: "await_completed outcomes completion = Inr res"
    and results: "results = map snd (sort_key fst res)"
    by (auto simp: gather_def split: sum.splits)
  from res have fst: "map fst res = completion"
    and each: "\<forall>(i, v) \<in> set res. outcomes ! i = Inr v"
    by (auto simp: await_completed_Inr)
  have idx: "map fst (sort_key fst res) = [0..<length outcomes]"
    using co fst by (simp add: map_sort_key completion_order_def)
  have len: "length results = length outcomes"
    using idx results by (metis length_map length_upt minus_nat.diff_0)
  show "outcomes = map Inr results"
  proof (rule nth_equalityI)
    show "length outcomes = length (map Inr results)" using len by simp
  next
    fix i assume i: "i < length outcomes"
    then have i': "i < length (sort_key fst res)" using len results by simp
    have "fst (sort_key fst res ! i) = i"
      using idx i i' by (metis nth_map nth_upt add_0)
    moreover have "sort_key fst res ! i \<in> set res"
      using i' by (metis nth_mem set_sort)
    ultimately have "outcomes ! i = Inr (snd (sort_key fst res ! i))"
      using each by (auto simp: case_prod_beta)
    then show "outcomes ! i = map Inr results ! i"
      using i i' len results by simp
  qed
next
  assume o: "outcomes = map Inr results"
  have "\<forall>i \<in> set completion. \<exists>v. outcomes ! i = Inr v"
    using completion_order_set [OF co] o by auto
  from await_completed_all_Inr [OF this] obtain res where
    res: "await_completed outcomes completion = Inr res" by blast
  then have fst: "map fst res = completion"
    and each: "\<forall>(i, v) \<in> set res. outcomes ! i = Inr v"
    by (auto simp: await_completed_Inr)
  have idx: "map fst (sort_key fst res) = [0..<length outcomes]"
    using co fst by (simp add: map_sort_key completion_order_def)
  have "map snd (sort_key fst res) = results"
  proof (rule nth_equalityI)
    show "length (map snd (sort_key fst res)) = length results"
      using idx o by (metis length_map length_upt minus_nat.diff_0)
  next
    fix i assume "i < length (map snd (sort_key fst res))"
    then have i': "i < length (sort_key fst res)" by simp
    then have i: "i < length outcomes" using idx by (metis length_map length_upt minus_nat.diff_0)
    have "fst (sort_key fst res ! i) = i"
      using idx i i' by (metis nth_map nth_upt add_0)
    moreover have "sort_key fst res ! i \<in> set res"
      using i' by (metis nth_mem set_sort)
    ultimately have "outcomes ! i = Inr (snd (sort_key fst res ! i))"
      using each by (auto simp: case_prod_beta)
    then show "map snd (sort_key fst res) ! i = results ! i"
      using i i' o by simp
  qed
  then show "gather outcomes completion = Inr results"
    using res by (simp add: gather_def)
qed

lemma gather_Inl:
  assumes co: "completion_order (length outcomes) completion"
    and "gather outcomes completion = Inl e"
  shows "\<exists>i < length outcomes. outcomes ! i = Inl e"
proof -
  from assms(2) have "await_completed outcomes completion = Inl e"
    by (auto simp: gather_def split: sum.splits)
  from await_completed_Inl [OF this] completion_order_set [OF co] show ?thesis by auto
qed

lemma run_batch_Inr:
  assumes "completion_order (length ds) completion"
  shows "run_batch ds client td completion = Inr results \<longleftrightarrow>
     length results = length ds
     \<and> (\<forall>i<length ds. generate_dataset_label (ds ! i) (client i) td = Inr (results ! i))"
proof -
  let ?outs = "map (\<lambda>(i, ds_row). generate_dataset_label ds_row (client i) td) (enumerate 0 ds)"
  have len: "length ?outs = length ds" by simp
  have nth: "?outs ! i = generate_dataset_label (ds ! i) (client i) td" if "i < length ds" for i
    using that by (simp add: nth_enumerate_eq)
  have "run_batch ds client td completion = Inr results \<longleftrightarrow> ?outs = map Inr results"
    unfolding run_batch_def using assms gather_Inr [of ?outs completion results] by simp
  also have "\<dots> \<longleftrightarrow> length results = length ds
     \<and> (\<forall>i<length ds. generate_dataset_label (ds ! i) (client i) td = Inr (results ! i))"
  proof
    assume eq: "?outs = map Inr results"
    then have l: "length results = length ds" using len by (metis length_map)
    moreover have "generate_dataset_label (ds ! i) (client i) td = Inr (results ! i)"
      if "i < length ds" for i
      using nth [OF that] eq that l by simp
    ultimately show "length results = length ds
     \<and> (\<forall>i<length ds. generate_dataset_label (ds ! i) (client i) td = Inr (results ! i))"
      by blast
  next
    assume r: "length results = length ds
     \<and> (\<forall>i<length ds. generate_dataset_label (ds ! i) (client i) td = Inr (results ! i))"
    show "?outs = map Inr results"
    proof (rule nth_equalityI)
      show "length ?outs = length (map Inr results)" using r by simp
    next
      fix i assume "i < length ?outs"
      then have i: "i < length ds" by simp
      show "?outs ! i = map Inr results ! i"
        using nth [OF i] r i by simp
    qed
  qed
  finally show ?thesis .
qed

lemma generate_dataset_label_Inl:
  "generate_dataset_label x cl td = Inl err \<longleftrightarrow>
     (\<exists>e1 e2 e3. attempt x (cl 1) td = Inl e1 \<and> attempt x (cl 2) td = Inl e2
        \<and> attempt x (cl 3) td = Inl e3 \<and> err = RetryError e3)"
proof -
  have two: "Suc (Suc 0) = 2" and three: "Suc (Suc (Suc 0)) = 3" by simp_all
  show ?thesis
    unfolding generate_dataset_label_def
    by (subst retry.simps, subst retry.simps, subst retry.simps)
       (auto split: sum.splits simp: numeral_2_eq_2 numeral_3_eq_3)
qed

lemma generate_dataset_label_Inr:
  "generate_dataset_label x cl td = Inr rows \<longleftrightarrow>
     attempt x (cl 1) td = Inr rows
     \<or> (\<exists>e1. attempt x (cl 1) td = Inl e1 \<and> attempt x (cl 2) td = Inr rows)
     \<or> (\<exists>e1 e2. attempt x (cl 1) td = Inl e1 \<and> attempt x (cl 2) td = Inl e2
           \<and> attempt x (cl 3) td = Inr rows)"
  unfolding generate_dataset_label_def
  by (subst retry.simps, subst retry.simps, subst retry.simps)
     (auto split: sum.splits simp: numeral_2_eq_2 numeral_3_eq_3)

lemma attempt_simps:
  "attempt x TimedOut td = Inl TimeoutError"
  "attempt x Failed td = Inl APIError"
  "attempt x (Completed []) td = Inr []"
  "attempt x (Completed [tank_top]) small_taxonomy = Inr [\<lparr>image_obj = x, metadata = tank_top\<rparr>]"
  by (simp_all add: attempt_def validate_items_def tank_top_accepted)

lemma first_never_answers_labels:
  "generate_dataset_label x (first_never_answers 0) small_taxonomy = Inl (RetryError TimeoutError)"
  "generate_dataset_label x (first_never_answers (Suc i)) small_taxonomy
     = Inr [\<lparr>image_obj = x, metadata = tank_top\<rparr>]"
  by (simp_all add: generate_dataset_label_Inl generate_dataset_label_Inr
        first_never_answers_def attempt_simps)

lemma slow_then_fine_labels:
  "generate_dataset_label x (slow_then_fine 0) small_taxonomy
     = Inr [\<lparr>image_obj = x, metadata = tank_top\<rparr>]"
  "generate_dataset_label x (slow_then_fine (Suc i)) small_taxonomy = Inr []"
  by (simp_all add: generate_dataset_label_Inr slow_then_fine_def attempt_simps)

section \<open>C5: the rows come back in the order of the input\<close>

text \<open>
  C5. Whatever the order in which the tasks complete, the batch returns rows exactly
  when every task returns, and then the list of rows is as long as the input and its
  i-th element is what \<open>generate_dataset_label\<close> returned for the i-th input row.
\<close>

theorem batch_preserves_input_order:
  assumes "completion_order (length ds) completion"
  shows "run_batch ds client td completion = Inr results \<longleftrightarrow>
     length results = length ds
     \<and> (\<forall>i<length ds. generate_dataset_label (ds ! i) (client i) td = Inr (results ! i))"
  using assms by (rule run_batch_Inr)

theorem batch_preserves_input_order_witness:
  "completion_order 2 [1, 0]
   \<and> run_batch [''a.png'', ''b.png''] slow_then_fine small_taxonomy [1, 0]
     = Inr [[\<lparr>image_obj = ''a.png'', metadata = tank_top\<rparr>], []]"
proof -
  have co: "completion_order 2 [1, 0]"
    by (simp add: completion_order_def upt_rec)
  then have co': "completion_order (length [''a.png'', ''b.png'']) [1, 0]"
    by (simp add: numeral_2_eq_2)
  have "\<forall>i<length [''a.png'', ''b.png''].
      generate_dataset_label ([''a.png'', ''b.png''] ! i) (slow_then_fine i) small_taxonomy
        = Inr ([[\<lparr>image_obj = ''a.png'', metadata = tank_top\<rparr>], []] ! i)"
    by (simp add: less_Suc_eq slow_then_fine_labels)
  then have "run_batch [''a.png'', ''b.png''] slow_then_fine small_taxonomy [1, 0]
     = Inr [[\<lparr>image_obj = ''a.png'', metadata = tank_top\<rparr>], []]"
    using batch_preserves_input_order [OF co', of slow_then_fine small_taxonomy
        "[[\<lparr>image_obj = ''a.png'', metadata = tank_top\<rparr>], []]"]
    by simp
  with co show ?thesis by blast
qed

section \<open>C2: a row whose attempts are all used up\<close>

text \<open>
  C2, as the code has it. When all three attempts of one row fail, the batch, whatever
  the completion order, raises the \<^verbatim>\<open>RetryError\<close> of a row whose attempts are used up (the
  error holds the exception of that row's third attempt), and returns no rows at all.
\<close>

theorem exhausted_item_aborts_batch:
  assumes "completion_order (length ds) completion"
    and "i < length ds"
    and "\<forall>k \<in> {1, 2, 3}. \<exists>e. attempt (ds ! i) (client i k) td = Inl e"
  shows "\<exists>j<length ds. \<exists>e.
            generate_dataset_label (ds ! j) (client j) td = Inl (RetryError e)
          \<and> attempt (ds ! j) (client j 3) td = Inl e
          \<and> run_batch ds client td completion = Inl (RetryError e)"
proof -
  let ?outs = "map (\<lambda>(i, ds_row). generate_dataset_label ds_row (client i) td) (enumerate 0 ds)"
  have co: "completion_order (length ?outs) completion" using assms(1) by simp
  have nth: "?outs ! i = generate_dataset_label (ds ! i) (client i) td" if "i < length ds" for i
    using that by (simp add: nth_enumerate_eq)
  from assms(3) obtain e3 where "generate_dataset_label (ds ! i) (client i) td = Inl (RetryError e3)"
    by (auto simp: generate_dataset_label_Inl)
  then have no: "\<not> (\<exists>results. run_batch ds client td completion = Inr results)"
    using run_batch_Inr [OF assms(1)] assms(2) by (metis Inl_Inr_False)
  then obtain err where err: "gather ?outs completion = Inl err"
    unfolding run_batch_def by (cases "gather ?outs completion") auto
  from gather_Inl [OF co err] obtain j where j: "j < length ds"
    and "?outs ! j = Inl err" by auto
  then have lab: "generate_dataset_label (ds ! j) (client j) td = Inl err" using nth by simp
  then obtain e where "attempt (ds ! j) (client j 3) td = Inl e" "err = RetryError e"
    by (auto simp: generate_dataset_label_Inl)
  then show ?thesis using j err lab by (auto simp: run_batch_def)
qed

theorem exhausted_item_aborts_batch_witness:
  "completion_order 2 [0, 1]
   \<and> run_batch [''a.png'', ''b.png''] first_never_answers small_taxonomy [0, 1]
     = Inl (RetryError TimeoutError)"
proof -
  have co: "completion_order 2 [0, 1]"
    by (simp add: completion_order_def upt_rec)
  then have co': "completion_order (length [''a.png'', ''b.png'']) [0, 1]"
    by (simp add: numeral_2_eq_2)
  have zero: "0 < length [''a.png'', ''b.png'']" by simp
  have "\<forall>k \<in> {1, 2, 3}. \<exists>e. attempt ([''a.png'', ''b.png''] ! 0) (first_never_answers 0 k) small_taxonomy = Inl e"
    by (simp add: first_never_answers_def attempt_simps)
  from exhausted_item_aborts_batch [of "[''a.png'', ''b.png'']" "[0, 1]" 0 first_never_answers
      small_taxonomy, OF co' zero this]
  obtain j e where "attempt ([''a.png'', ''b.png''] ! j) (first_never_answers j 3) small_taxonomy = Inl e"
    and r: "run_batch [''a.png'', ''b.png''] first_never_answers small_taxonomy [0, 1] = Inl (RetryError e)"
    and "j < length [''a.png'', ''b.png'']"
    by blast
  then have "e = TimeoutError"
    by (auto simp: less_Suc_eq first_never_answers_def attempt_simps)
  with r co show ?thesis by blast
qed

text \<open>
  C2, as the specification has it, fails: in a batch of two rows where the first never
  answers in time and the second is labelled at its first attempt, the batch raises
  \<^verbatim>\<open>RetryError\<close>, which names no row, and the label of the second row is not delivered.
\<close>

theorem exhausted_item_counterexample:
  "generate_dataset_label ''b.png'' (first_never_answers 1) small_taxonomy
     = Inr [\<lparr>image_obj = ''b.png'', metadata = tank_top\<rparr>]
   \<and> run_batch [''a.png'', ''b.png''] first_never_answers small_taxonomy [1, 0]
     = Inl (RetryError TimeoutError)"
  by (simp add: run_batch_def gather_def first_never_answers_labels)

section \<open>C6: the semaphore bounds the calls in flight\<close>

lemma filter_length_update:
  "i < length xs \<Longrightarrow>
     length (filter P (xs[i := y])) + (if P (xs ! i) then 1 else 0)
       = length (filter P xs) + (if P y then 1 else 0)"
proof (induction xs arbitrary: i)
  case Nil
  then show ?case by simp
next
  case (Cons x xs)
  then show ?case by (cases i) auto
qed

lemma step_keeps_slots:
  assumes "step s s'"
  shows "sem_value s' + in_flight s' = sem_value s + in_flight s"
  using assms
proof (cases rule: step.cases)
  case (acquire i k)
  with filter_length_update [of i "tasks s" holding "Holding k"] show ?thesis
    by (simp add: in_flight_def)
next
  case (return i k)
  with filter_length_update [of i "tasks s" holding Returned] show ?thesis
    by (simp add: in_flight_def)
next
  case (raise_retry i k)
  with filter_length_update [of i "tasks s" holding "Backoff k"] show ?thesis
    by (simp add: in_flight_def)
next
  case (raise_last i k)
  with filter_length_update [of i "tasks s" holding Raised] show ?thesis
    by (simp add: in_flight_def)
next
  case (wake i k)
  with filter_length_update [of i "tasks s" holding "Pending (k + 1)"] show ?thesis
    by (simp add: in_flight_def)
qed

lemma initial_slots: "sem_value (initial K n) + in_flight (initial K n) = K"
  by (simp add: initial_def in_flight_def)

text \<open>
  C6. In every state that a batch of \<open>n\<close> tasks reaches from a semaphore of \<open>K\<close> slots, at
  most \<open>K\<close> tasks are inside \<^verbatim>\<open>async with sem\<close>, and the free slots and the tasks in flight
  add up to \<open>K\<close>.
\<close>

theorem at_most_K_in_flight:
  assumes "step\<^sup>*\<^sup>* (initial K n) s"
  shows "in_flight s \<le> K \<and> sem_value s + in_flight s = K"
proof -
  from assms have "sem_value s + in_flight s = K"
    by (induction rule: rtranclp_induct) (simp_all add: initial_slots step_keeps_slots)
  then show ?thesis by simp
qed

theorem at_most_K_in_flight_witness:
  "step\<^sup>*\<^sup>* (initial 15 2) \<lparr>sem_value = 14, tasks = [Holding 1, Pending 1]\<rparr>
   \<and> in_flight \<lparr>sem_value = 14, tasks = [Holding 1, Pending 1]\<rparr> = 1"
proof -
  have "step (initial 15 2) \<lparr>sem_value = sem_value (initial 15 2) - 1,
      tasks = (tasks (initial 15 2))[0 := Holding 1]\<rparr>"
    by (rule step.acquire) (simp_all add: initial_def numeral_2_eq_2)
  then have r: "step\<^sup>*\<^sup>* (initial 15 2) \<lparr>sem_value = 14, tasks = [Holding 1, Pending 1]\<rparr>"
    by (simp add: initial_def numeral_2_eq_2)
  from at_most_K_in_flight [OF r] r show ?thesis
    by (simp add: in_flight_def)
qed

section \<open>Serialisation: helper lemmas\<close>

lemma hex_value_hex_digit: "d < 16 \<Longrightarrow> hex_value (hex_digit d) = Some d"
proof -
  assume d: "d < 16"
  have "list_all (\<lambda>d. hex_value (hex_digit d) = Some d) [0..<16]"
    by code_simp
  then have "\<forall>d \<in> set [0..<16]. hex_value (hex_digit d) = Some d"
    by (simp only: list_all_iff)
  with d show ?thesis by simp
qed

lemma unhex4_hex4:
  assumes "n < 65536"
  shows "\<exists>a b c d. hex4 n = [a, b, c, d] \<and> unhex4 a b c d = Some n"
proof -
  define x where "x = n div 16"
  define y where "y = x div 16"
  define z where "z = y div 16"
  have d256: "n div 256 = y" and d4096: "n div 4096 = z"
    by (simp_all add: x_def y_def z_def div_mult2_eq)
  have "n div 4096 < 16"
    using assms by (simp add: less_mult_imp_div_less)
  then have z: "z mod 16 = z" by (simp add: d4096)
  then have zlt: "z < 16" by (simp add: d4096)
  have e: "hex4 n = [hex_digit z, hex_digit (y mod 16), hex_digit (x mod 16),
                     hex_digit (n mod 16)]"
    by (simp add: hex4_def d256 d4096 z x_def)
  have u: "unhex4 (hex_digit z) (hex_digit (y mod 16)) (hex_digit (x mod 16))
             (hex_digit (n mod 16))
           = Some (((z * 16 + y mod 16) * 16 + x mod 16) * 16 + n mod 16)"
    by (simp add: unhex4_def hex_value_hex_digit zlt)
  have "z * 16 + y mod 16 = y" by (simp add: z_def)
  moreover have "y * 16 + x mod 16 = x" by (simp add: y_def)
  moreover have "x * 16 + n mod 16 = n" by (simp add: x_def)
  ultimately have "((z * 16 + y mod 16) * 16 + x mod 16) * 16 + n mod 16 = n"
    by (simp only:)
  with e u show ?thesis by (simp only:) blast
qed

lemma length_hex4 [simp]: "length (hex4 n) = 4"
  by (simp add: hex4_def)

lemma decode_hex4: "n < 65536 \<Longrightarrow> decode_uXXXX (hex4 n @ cs) = Some n"
  using unhex4_hex4 [of n] by (auto simp: decode_uXXXX_def)

lemma scanstring_quote: "scanstring (0x22 # cs) = Some ([], cs)"
  by (simp add: scanstring.simps)

lemma scanstring_plain:
  "c \<noteq> 0x22 \<Longrightarrow> c \<noteq> 0x5C \<Longrightarrow> \<not> c < 0x20 \<Longrightarrow>
     scanstring (c # cs) =
       (case scanstring cs of None \<Rightarrow> None | Some (s, r) \<Rightarrow> Some (c # s, r))"
  by (simp add: scanstring.simps)

lemma scanstring_two:
  "e \<noteq> 0x75 \<Longrightarrow> unescape e = Some d \<Longrightarrow>
     scanstring (0x5C # e # cs) =
       (case scanstring cs of None \<Rightarrow> None | Some (s, r) \<Rightarrow> Some (d # s, r))"
  by (simp add: scanstring.simps)

text \<open>An escape that is not the first half of a pair stands for its number.\<close>

lemma scanstring_single:
  assumes "n < 65536" and "\<not> (0xD800 \<le> n \<and> n \<le> 0xDBFF)"
  shows "scanstring (unicode_escape n @ cs) =
       (case scanstring cs of None \<Rightarrow> None | Some (s, r) \<Rightarrow> Some (n # s, r))"
proof -
  have "scanstring (0x5C # 0x75 # (hex4 n @ cs)) =
       (case scanstring cs of None \<Rightarrow> None | Some (s, r) \<Rightarrow> Some (n # s, r))"
    using assms by (subst scanstring.simps) (auto simp: decode_hex4)
  then show ?thesis by (simp add: unicode_escape_def)
qed

text \<open>A high surrogate followed by a low surrogate stands for one code point.\<close>

lemma scanstring_pair:
  assumes "0xD800 \<le> s1" "s1 \<le> 0xDBFF" "0xDC00 \<le> s2" "s2 \<le> 0xDFFF"
  shows "scanstring (unicode_escape s1 @ unicode_escape s2 @ cs) =
       (case scanstring cs of
          None \<Rightarrow> None
        | Some (s, r) \<Rightarrow> Some ((0x10000 + (push_bit 10 (s1 - 0xD800) OR (s2 - 0xDC00))) # s, r))"
proof -
  have s1: "s1 < 65536" and s2: "s2 < 65536" using assms by simp_all
  have four: "drop 4 (hex4 s1 @ 0x5C # 0x75 # hex4 s2 @ cs) = 0x5C # 0x75 # hex4 s2 @ cs"
    and six: "drop 6 (hex4 s1 @ 0x5C # 0x75 # hex4 s2 @ cs) = hex4 s2 @ cs"
    and ten: "drop 10 (hex4 s1 @ 0x5C # 0x75 # hex4 s2 @ cs) = cs"
    by simp_all
  have "scanstring (0x5C # 0x75 # (hex4 s1 @ 0x5C # 0x75 # hex4 s2 @ cs)) =
       (case scanstring cs of
          None \<Rightarrow> None
        | Some (s, r) \<Rightarrow> Some ((0x10000 + (push_bit 10 (s1 - 0xD800) OR (s2 - 0xDC00))) # s, r))"
    using assms
    by (subst scanstring.simps)
       (simp add: decode_hex4 [OF s1] decode_hex4 [OF s2] four six ten del: drop_append)
  then show ?thesis by (simp add: unicode_escape_def)
qed

lemma and_3FF: "(n::nat) AND 0x3FF = n mod 1024"
proof -
  have "n AND mask 10 = n mod 2 ^ 10"
    by (simp only: take_bit_eq_mask [symmetric] take_bit_eq_mod)
  then show ?thesis by (simp add: mask_eq_exp_minus_1)
qed

lemma or_below: "y < 2 ^ k \<Longrightarrow> push_bit k (a::nat) OR y = a * 2 ^ k + y"
proof -
  assume y: "y < 2 ^ k"
  then have t: "take_bit k y = y" by (simp add: take_bit_nat_eq_self)
  have "push_bit k a + take_bit k y = push_bit k a OR take_bit k y"
    by (rule disjunctive_add) (auto simp: bit_push_bit_iff bit_take_bit_iff)
  then show ?thesis by (simp add: t push_bit_eq_mult)
qed

text \<open>The two surrogates written for a code point from 0x10000, and what they stand for.\<close>

lemma surrogates_of:
  fixes c :: nat
  assumes "0x10000 \<le> c" and "c < 0x110000"
  defines "n \<equiv> c - 0x10000"
  shows "0xD800 OR (drop_bit 10 n AND 0x3FF) = 0xD800 + n div 1024"
    and "0xDC00 OR (n AND 0x3FF) = 0xDC00 + n mod 1024"
    and "n div 1024 < 1024"
    and "0x10000 + (push_bit 10 (n div 1024) OR (n mod 1024)) = c"
proof -
  have n: "n < 1048576" using assms by simp
  then show small: "n div 1024 < 1024"
    by (simp add: less_mult_imp_div_less)
  then have "drop_bit 10 n AND 0x3FF = n div 1024"
    by (simp add: and_3FF drop_bit_eq_div)
  then show "0xD800 OR (drop_bit 10 n AND 0x3FF) = 0xD800 + n div 1024"
    using or_below [of "n div 1024" 10 54] small by simp
  show "0xDC00 OR (n AND 0x3FF) = 0xDC00 + n mod 1024"
    using or_below [of "n mod 1024" 10 55] by (simp add: and_3FF)
  have "push_bit 10 (n div 1024) OR (n mod 1024) = n"
    using or_below [of "n mod 1024" 10 "n div 1024"] by simp
  then show "0x10000 + (push_bit 10 (n div 1024) OR (n mod 1024)) = c"
    using assms by simp
qed

text \<open>One escaped scalar value followed by anything is read back as that value.\<close>

lemma scanstring_escape_char:
  assumes "scalar_value c"
  shows "scanstring (escape_char c @ cs) =
     (case scanstring cs of None \<Rightarrow> None | Some (s, r) \<Rightarrow> Some (c # s, r))"
proof -
  let ?special = "{0x5C, 0x22, 0x08, 0x0C, 0x0A, 0x0D, 0x09 :: nat}"
  consider (special) "c \<in> ?special"
    | (plain) "c \<notin> ?special" "0x20 \<le> c \<and> c \<le> 0x7E"
    | (single) "c \<notin> ?special" "\<not> (0x20 \<le> c \<and> c \<le> 0x7E)" "c < 0x10000"
    | (pair) "c \<notin> ?special" "\<not> (0x20 \<le> c \<and> c \<le> 0x7E)" "\<not> c < 0x10000"
    by blast
  then show ?thesis
  proof cases
    case special
    then consider "c = 0x5C" | "c = 0x22" | "c = 0x08" | "c = 0x0C"
      | "c = 0x0A" | "c = 0x0D" | "c = 0x09"
      by blast
    then show ?thesis
      by cases (auto simp: escape_char_def unescape_def scanstring_two)
  next
    case plain
    then have e: "escape_char c = [c]" by (simp add: escape_char_def)
    from plain have "c \<noteq> 0x22" "c \<noteq> 0x5C" "\<not> c < 0x20"
      by auto
    then have "scanstring (c # cs) =
       (case scanstring cs of None \<Rightarrow> None | Some (s, r) \<Rightarrow> Some (c # s, r))"
      by (rule scanstring_plain)
    then show ?thesis
      unfolding e by (simp only: append_Cons append_Nil)
  next
    case single
    then have e: "escape_char c = unicode_escape c"
      by (auto simp: escape_char_def)
    from single assms have "c < 65536" "\<not> (0xD800 \<le> c \<and> c \<le> 0xDBFF)"
      by (auto simp: scalar_value_def)
    then show ?thesis
      unfolding e by (rule scanstring_single)
  next
    case pair
    with assms have c: "0x10000 \<le> c" "c < 0x110000"
      by (auto simp: scalar_value_def)
    let ?n = "c - 0x10000"
    note s = surrogates_of [OF c]
    have e: "escape_char c
        = unicode_escape (0xD800 + ?n div 1024) @ unicode_escape (0xDC00 + ?n mod 1024)"
      using pair by (simp add: escape_char_def Let_def s(1) s(2))
    have v: "0x10000 + (push_bit 10 (0xD800 + ?n div 1024 - 0xD800)
                               OR (0xDC00 + ?n mod 1024 - 0xDC00)) = c"
      using s(4) by simp
    have "scanstring (unicode_escape (0xD800 + ?n div 1024)
              @ unicode_escape (0xDC00 + ?n mod 1024) @ cs) =
       (case scanstring cs of
          None \<Rightarrow> None
        | Some (s, r) \<Rightarrow>
            Some ((0x10000 + (push_bit 10 (0xD800 + ?n div 1024 - 0xD800)
                               OR (0xDC00 + ?n mod 1024 - 0xDC00))) # s, r))"
      using s(3) by (intro scanstring_pair) simp_all
    then show ?thesis
      unfolding e append_assoc v .
  qed
qed

lemma scanstring_escaped:
  "well_formed s \<Longrightarrow> scanstring (concat (map escape_char s) @ 0x22 # cs) = Some (s, cs)"
proof (induction s)
  case Nil
  show ?case by (simp only: list.map concat.simps append_Nil scanstring_quote)
next
  case (Cons c s)
  then have c: "scalar_value c" and s: "well_formed s"
    by (simp_all add: well_formed_def)
  show ?case
    by (simp only: list.map concat.simps append_assoc scanstring_escape_char [OF c]
          Cons.IH [OF s] option.case prod.case)
qed

lemma scan_quoted_encoded:
  "well_formed s \<Longrightarrow> scan_quoted (py_encode_basestring_ascii s @ cs) = Some (s, cs)"
  using scanstring_escaped [of s cs]
  by (simp add: scan_quoted_def py_encode_basestring_ascii_def)

lemma expect_append: "expect lit (lit @ s) = Some s"
  by (simp add: expect_def)

lemma loads_dumps_attribute:
  assumes "well_formed (attr_name a)" and "well_formed (attr_value a)"
  shows "loads_attribute (dumps_attribute a @ cs) = Some (a, cs)"
  unfolding dumps_attribute_def loads_attribute_def
  by (simp only: append_assoc expect_append scan_quoted_encoded [OF assms(1)]
        scan_quoted_encoded [OF assms(2)] option.case prod.case) simp

lemma json_dumps_Cons:
  "json_dumps (a # others) = py ''['' @ dumps_attribute a @ rest_of_array others"
proof -
  have "join_items (map dumps_attribute (a # others)) @ py '']''
      = dumps_attribute a @ rest_of_array others"
    by (induction others arbitrary: a) simp_all
  then show ?thesis by (simp add: json_dumps_def)
qed

lemma dumps_attribute_long: "1 < length (dumps_attribute a @ cs)"
  by (simp add: dumps_attribute_def)

lemma length_rest_of_array: "length others < length (rest_of_array others)"
  by (induction others) simp_all

lemma loads_more_rest:
  "well_formed_attributes others \<Longrightarrow> length others < fuel \<Longrightarrow>
     loads_more fuel (rest_of_array others) = Some others"
proof (induction others arbitrary: fuel)
  case Nil
  then show ?case by (cases fuel) simp_all
next
  case (Cons a others)
  then obtain fuel' where f: "fuel = Suc fuel'" and l: "length others < fuel'"
    by (cases fuel) auto
  from Cons.prems(1) have a: "well_formed (attr_name a)" "well_formed (attr_value a)"
    and o: "well_formed_attributes others"
    by (simp_all add: well_formed_attributes_def)
  have "length (rest_of_array (a # others)) \<noteq> length (py '']'')" by simp
  then have ne: "py '', '' @ dumps_attribute a @ rest_of_array others \<noteq> py '']''"
    by (metis rest_of_array.simps(2))
  have "loads_more (Suc fuel') (py '', '' @ dumps_attribute a @ rest_of_array others)
      = Some (a # others)"
    unfolding loads_more.simps
    by (simp only: ne if_False expect_append loads_dumps_attribute [OF a] Cons.IH [OF o l]
          option.case prod.case)
  then show ?case by (simp add: f)
qed

lemma json_round_trip:
  assumes "well_formed_attributes attrs"
  shows "json_loads (json_dumps attrs) = Some attrs"
proof (cases attrs)
  case Nil
  then show ?thesis by (simp add: json_loads_def json_dumps_def expect_append)
next
  case (Cons a others)
  from assms Cons have a: "well_formed (attr_name a)" "well_formed (attr_value a)"
    and o: "well_formed_attributes others"
    by (simp_all add: well_formed_attributes_def)
  have "length (dumps_attribute a @ rest_of_array others) \<noteq> length (py '']'')"
    using dumps_attribute_long [of a "rest_of_array others"] by simp
  then have ne: "dumps_attribute a @ rest_of_array others \<noteq> py '']''"
    by metis
  have tail: "loads_more (length (rest_of_array others)) (rest_of_array others) = Some others"
    using o by (rule loads_more_rest) (rule length_rest_of_array)
  show ?thesis
    unfolding Cons json_dumps_Cons json_loads_def
    by (simp only: expect_append loads_dumps_attribute [OF a] tail ne option.case prod.case
          if_False)
qed

text \<open>
  Well-formedness is needed: a high surrogate followed by a low surrogate is written
  like the code point that the two encode, and is read back as that code point.
\<close>

lemma surrogates_are_joined:
  "json_dumps [\<lparr>attr_name = [0xD800, 0xDC00], attr_value = []\<rparr>]
     = json_dumps [\<lparr>attr_name = [0x10000], attr_value = []\<rparr>]
   \<and> json_loads (json_dumps [\<lparr>attr_name = [0xD800, 0xDC00], attr_value = []\<rparr>])
     = Some [\<lparr>attr_name = [0x10000], attr_value = []\<rparr>]"
proof -
  have same: "json_dumps [\<lparr>attr_name = [0xD800, 0xDC00], attr_value = []\<rparr>]
     = json_dumps [\<lparr>attr_name = [0x10000], attr_value = []\<rparr>]"
    by (simp add: json_dumps_def dumps_attribute_def py_encode_basestring_ascii_def
          escape_char_def)
  have "well_formed_attributes [\<lparr>attr_name = [0x10000], attr_value = []\<rparr>]"
    by (simp add: well_formed_attributes_def well_formed_def scalar_value_def)
  then have "json_loads (json_dumps [\<lparr>attr_name = [0x10000], attr_value = []\<rparr>])
     = Some [\<lparr>attr_name = [0x10000], attr_value = []\<rparr>]"
    by (rule json_round_trip)
  with same show ?thesis by simp
qed

lemma flatten_item_value:
  "flatten_item item ident price =
     Inr [(''image'', PyImage (image_obj item)),
          (''title'', PyStr (title (metadata item))),
          (''brand'', PyStr (brand (metadata item))),
          (''description'', PyStr (description (metadata item))),
          (''category'', PyStr (category (metadata item))),
          (''subcategory'', PyStr (subcategory (metadata item))),
          (''product_type'', PyStr (product_type (metadata item))),
          (''attributes'', PyStr (json_dumps (attributes (metadata item)))),
          (''material'', PyStr (material (metadata item))),
          (''pattern'', PyStr (pattern (metadata item))),
          (''id'', PyInt ident),
          (''price'', PyFloat price)]"
  by (simp add: flatten_item_def dict_display_def model_dump_def)

lemma collect_map_Inr: "collect (map (\<lambda>x. Inr (f x)) xs) = Inr (map f xs)"
  by (induction xs) simp_all

lemma hf_dataset_items_value:
  "hf_dataset_items flattened price =
     Inr (map (\<lambda>(i, item). projr (flatten_item item (int i + 1) (price i))) (enumerate 0 flattened))"
proof -
  have eq: "(\<lambda>(i, item). flatten_item item (int i + 1) (price i))
      = (\<lambda>p. Inr ((\<lambda>(i, item). projr (flatten_item item (int i + 1) (price i))) p))"
    by (auto simp: flatten_item_value fun_eq_iff)
  show ?thesis
    unfolding hf_dataset_items_def eq by (rule collect_map_Inr)
qed

section \<open>C7: one numbered entry per item\<close>

text \<open>
  C7. Assembly returns one entry for every item of every row: as many entries as the
  rows have items together, the k-th entry (counting from 0) being the flattened k-th
  item of the concatenated rows, with the identifier k + 1.
\<close>

theorem assembly_numbers_the_items:
  "\<exists>entries. assemble results price = Inr entries
     \<and> length entries = sum_list (map length results)
     \<and> (\<forall>k<length entries.
           flatten_item (concat results ! k) (int k + 1) (price k) = Inr (entries ! k)
         \<and> map_of (entries ! k) ''id'' = Some (PyInt (int k + 1)))"
proof -
  let ?entries = "map (\<lambda>(i, item). projr (flatten_item item (int i + 1) (price i)))
                     (enumerate 0 (concat results))"
  have a: "assemble results price = Inr ?entries"
    by (simp add: assemble_def flattened_results_def hf_dataset_items_value)
  have l: "length ?entries = sum_list (map length results)"
    by (simp add: length_concat)
  have "flatten_item (concat results ! k) (int k + 1) (price k) = Inr (?entries ! k)
         \<and> map_of (?entries ! k) ''id'' = Some (PyInt (int k + 1))"
    if "k < length ?entries" for k
    using that by (simp add: nth_enumerate_eq flatten_item_value)
  with a l show ?thesis by blast
qed

theorem assembly_numbers_the_items_witness:
  "(case assemble two_rows (\<lambda>k. ()) of
      Inl e \<Rightarrow> []
    | Inr entries \<Rightarrow> map (\<lambda>entry. map_of entry ''id'') entries)
   = [Some (PyInt 1), Some (PyInt 2), Some (PyInt 3)]"
proof -
  from assembly_numbers_the_items [of two_rows "\<lambda>k. ()"] obtain entries where
    a: "assemble two_rows (\<lambda>k. ()) = Inr entries"
    and l: "length entries = sum_list (map length two_rows)"
    and ids: "\<forall>k<length entries. map_of (entries ! k) ''id'' = Some (PyInt (int k + 1))"
    by blast
  from l have l3: "length entries = 3" by (simp add: two_rows_def)
  then obtain e1 e2 e3 where e: "entries = [e1, e2, e3]"
    by (auto simp: length_Suc_conv numeral_3_eq_3)
  from ids l3 have "map_of (entries ! 0) ''id'' = Some (PyInt 1)"
    "map_of (entries ! 1) ''id'' = Some (PyInt 2)" "map_of (entries ! 2) ''id'' = Some (PyInt 3)"
    by auto
  then show ?thesis by (simp add: a e)
qed

section \<open>C10: flattening keeps the fields\<close>

text \<open>
  C10. For an extraction result, whose attribute names and values are well-formed,
  \<open>flatten_item\<close> returns an entry that carries the image of the item and the title,
  brand, description, category, subcategory, product type, material and pattern of its
  metadata unchanged, and whose \<open>attributes\<close> entry is a text that \<open>json_loads\<close> reads back
  as the attribute list of the metadata.
\<close>

theorem flatten_item_lossless:
  assumes "well_formed_attributes (attributes (metadata item))"
  shows "\<exists>entry text. flatten_item item ident price = Inr entry
     \<and> map_of entry ''image'' = Some (PyImage (image_obj item))
     \<and> map_of entry ''title'' = Some (PyStr (title (metadata item)))
     \<and> map_of entry ''brand'' = Some (PyStr (brand (metadata item)))
     \<and> map_of entry ''description'' = Some (PyStr (description (metadata item)))
     \<and> map_of entry ''category'' = Some (PyStr (category (metadata item)))
     \<and> map_of entry ''subcategory'' = Some (PyStr (subcategory (metadata item)))
     \<and> map_of entry ''product_type'' = Some (PyStr (product_type (metadata item)))
     \<and> map_of entry ''material'' = Some (PyStr (material (metadata item)))
     \<and> map_of entry ''pattern'' = Some (PyStr (pattern (metadata item)))
     \<and> map_of entry ''attributes'' = Some (PyStr text)
     \<and> json_loads text = Some (attributes (metadata item))"
  using assms by (simp add: flatten_item_value json_round_trip)

theorem flatten_item_lossless_witness:
  "well_formed_attributes (attributes cafe_top)
   \<and> (case flatten_item \<lparr>image_obj = ''a.png'', metadata = cafe_top\<rparr> 1 () of
        Inl e \<Rightarrow> None
      | Inr entry \<Rightarrow>
          (case map_of entry ''attributes'' of
             Some (PyStr text) \<Rightarrow> json_loads text
           | _ \<Rightarrow> None))
     = Some [\<lparr>attr_name = py ''Fit'', attr_value = py ''Caf'' @ [0xE9, 0x20, 0x1F600]\<rparr>]"
proof -
  have w: "well_formed_attributes (attributes cafe_top)"
    by (simp add: cafe_top_def well_formed_attributes_def well_formed_simps scalar_value_def)
  then have "well_formed_attributes
      (attributes (metadata \<lparr>image_obj = ''a.png'', metadata = cafe_top\<rparr>))"
    by simp
  from flatten_item_lossless [OF this, of 1 "()"] obtain entry js where
    "flatten_item \<lparr>image_obj = ''a.png'', metadata = cafe_top\<rparr> 1 () = Inr entry"
    "map_of entry ''attributes'' = Some (PyStr js)"
    "json_loads js = Some (attributes cafe_top)"
    by auto
  with w show ?thesis by (simp add: cafe_top_def)
qed

end
